theory Spec2Isabelle
  imports Main "HOL-Library.Word" "HOL-Library.Char_ord" "HOL-Library.List_Lexorder"
begin

section \<open>The libwacom tablet database: data model\<close>

text \<open>
  The development embeds the two C sources of the library: the database builder
  (descriptor parser, stylus catalog parser, directory scan) and \<open>libwacom.c\<close>
  (resolvers and accessors). A C \<open>int\<close> and a \<open>uint32_t\<close> are 32-bit words (an
  \<open>int\<close> is read with \<open>sint\<close>, so \<open>- 1\<close> is the word of all ones). A value of type
  \<open>string\<close> stands for the bytes of a NUL-terminated C string before its terminator;
  a \<open>char *\<close> that may be \<open>NULL\<close> is a \<open>string option\<close>. Every way the C code can stop the process (a failed GLib
  assertion, a read through a null pointer) is a value of type \<open>abort\<close>, returned
  on the left of a sum.
\<close>

type_synonym c_int = "32 word"
type_synonym c_uint = "32 word"

datatype abort = Assert_not_reached | Assert_failed | Null_dereference

datatype WacomBusType = WBUSTYPE_UNKNOWN | WBUSTYPE_USB | WBUSTYPE_SERIAL | WBUSTYPE_BLUETOOTH

datatype WacomClass =
  WCLASS_UNKNOWN | WCLASS_INTUOS3 | WCLASS_INTUOS4 | WCLASS_CINTIQ | WCLASS_BAMBOO | WCLASS_GRAPHIRE

datatype WacomStylusType =
  WSTYLUS_UNKNOWN | WSTYLUS_GENERAL | WSTYLUS_INKING | WSTYLUS_AIRBRUSH | WSTYLUS_CLASSIC
  | WSTYLUS_MARKER

text \<open>
  The feature bits \<open>FEATURE_STYLUS\<close> ... \<open>FEATURE_REVERSIBLE\<close> are declared in a header
  that is not part of the sources at hand; the bitset is therefore a set of flags and
  \<open>features |= FEATURE_X\<close> is \<open>insert\<close>.
\<close>

datatype WacomFeature =
  FEATURE_STYLUS | FEATURE_TOUCH | FEATURE_RING | FEATURE_RING2 | FEATURE_VSTRIP
  | FEATURE_HSTRIP | FEATURE_BUILTIN | FEATURE_REVERSIBLE

record WacomDevice =
  vendor :: "string option"
  product :: "string option"
  width :: c_int
  height :: c_int
  match :: "string option"
  vendor_id :: c_uint
  product_id :: c_uint
  cls :: WacomClass
  bus :: WacomBusType
  num_buttons :: c_int
  supported_styli :: "c_int list"
  num_styli :: nat
  features :: "WacomFeature set"

text \<open>
  The fields of \<open>WacomStylus\<close> carry the prefix \<open>stylus_\<close> where the C name is
  taken (\<open>id\<close>, \<open>name\<close>, \<open>type\<close>, and \<open>num_buttons\<close> of \<open>WacomDevice\<close>).
\<close>

record WacomStylus =
  stylus_id :: c_int
  stylus_name :: "string option"
  stylus_num_buttons :: c_int
  has_eraser :: bool
  is_eraser :: bool
  stylus_type :: WacomStylusType

text \<open>\<open>g_new0 (WacomDevice, 1)\<close>: every field zero, every pointer \<open>NULL\<close>.\<close>

definition g_new0_WacomDevice :: WacomDevice where
  "g_new0_WacomDevice =
     \<lparr>vendor = None, product = None, width = 0, height = 0, match = None, vendor_id = 0,
      product_id = 0, cls = WCLASS_UNKNOWN, bus = WBUSTYPE_UNKNOWN, num_buttons = 0,
      supported_styli = [], num_styli = 0, features = {}\<rparr>"

section \<open>Enum and string mappers\<close>

definition libwacom_model_string_to_enum :: "string option \<Rightarrow> WacomClass" where
  "libwacom_model_string_to_enum model =
     (case model of
        None \<Rightarrow> WCLASS_UNKNOWN
      | Some m \<Rightarrow>
          if m = [] then WCLASS_UNKNOWN
          else if m = ''Intuos3'' then WCLASS_INTUOS3
          else if m = ''Intuos4'' then WCLASS_INTUOS4
          else if m = ''Cintiq'' then WCLASS_CINTIQ
          else if m = ''Bamboo'' then WCLASS_BAMBOO
          else if m = ''Graphire'' then WCLASS_GRAPHIRE
          else WCLASS_UNKNOWN)"

definition type_from_str :: "string option \<Rightarrow> WacomStylusType" where
  "type_from_str t =
     (case t of
        None \<Rightarrow> WSTYLUS_UNKNOWN
      | Some s \<Rightarrow>
          if s = ''General'' then WSTYLUS_GENERAL
          else if s = ''Inking'' then WSTYLUS_INKING
          else if s = ''Airbrush'' then WSTYLUS_AIRBRUSH
          else if s = ''Classic'' then WSTYLUS_CLASSIC
          else if s = ''Marker'' then WSTYLUS_MARKER
          else WSTYLUS_UNKNOWN)"

text \<open>
  \<open>bus_from_str\<close> hands its argument to \<open>strcmp\<close> unchecked, so it is only ever
  called on a non-null string; the argument is a \<open>string\<close>.
\<close>

definition bus_from_str :: "string \<Rightarrow> WacomBusType" where
  "bus_from_str str =
     (if str = ''usb'' then WBUSTYPE_USB
      else if str = ''serial'' then WBUSTYPE_SERIAL
      else if str = ''bluetooth'' then WBUSTYPE_BLUETOOTH
      else WBUSTYPE_UNKNOWN)"

text \<open>
  \<open>bus_to_str\<close>: the \<open>switch\<close> of the source, case by case; the
  \<open>g_assert_not_reached ()\<close> of the \<open>WBUSTYPE_UNKNOWN\<close> case stops the process.
\<close>

fun bus_to_str :: "WacomBusType \<Rightarrow> abort + string" where
  "bus_to_str WBUSTYPE_UNKNOWN = Inl Assert_not_reached"
| "bus_to_str WBUSTYPE_USB = Inr ''usb''"
| "bus_to_str WBUSTYPE_SERIAL = Inr ''bluetooth''"
| "bus_to_str WBUSTYPE_BLUETOOTH = Inr ''bluetooth''"

section \<open>The C library calls of the sources\<close>

text \<open>
  \<open>sscanf\<close>, \<open>strtol\<close> and \<open>printf\<close>'s \<open>%x\<close> are modelled as the GNU C library on
  an LP64 platform performs them in the C locale (the library is built on GLib and
  udev, so this is its platform): \<open>unsigned long\<close> has 64 bits and \<open>unsigned int\<close> 32.
\<close>

definition isspace :: "char \<Rightarrow> bool" where
  "isspace c = (c = CHR '' '' \<or> c = CHR 0x09 \<or> c = CHR 0x0A \<or> c = CHR 0x0B \<or> c = CHR 0x0C
                \<or> c = CHR 0x0D)"

text \<open>The value of a character as a digit in a base up to 36, as \<open>strtol\<close> reads it.\<close>

definition digit_val :: "char \<Rightarrow> nat option" where
  "digit_val c =
     (let n = (of_char c :: nat) in
      if 48 \<le> n \<and> n \<le> 57 then Some (n - 48)
      else if 97 \<le> n \<and> n \<le> 122 then Some (n - 87)
      else if 65 \<le> n \<and> n \<le> 90 then Some (n - 55)
      else None)"

definition is_digit_of :: "nat \<Rightarrow> char \<Rightarrow> bool" where
  "is_digit_of base c = (case digit_val c of None \<Rightarrow> False | Some d \<Rightarrow> d < base)"

definition isxdigit :: "char \<Rightarrow> bool" where
  "isxdigit c = is_digit_of 16 c"

text \<open>The number a run of digits denotes, most significant digit first.\<close>

definition digits_value :: "nat \<Rightarrow> string \<Rightarrow> nat" where
  "digits_value base ds =
     foldl (\<lambda>a c. a * base + (case digit_val c of None \<Rightarrow> 0 | Some d \<Rightarrow> d)) 0 ds"

subsection \<open>\<open>sscanf (match, "%63[^:]:%x:%x", busstr, vendor_id, product_id)\<close>\<close>

text \<open>
  Each directive of the format is a function from the unread input to the converted
  value and the rest of the input, or \<open>None\<close> when the directive fails.

  \<open>%63[^:]\<close> stores the longest run of characters other than \<open>:\<close> among the
  first 63 and fails on an empty run; it skips no white space.
\<close>

definition scan_busstr :: "string \<Rightarrow> (string \<times> string) option" where
  "scan_busstr s =
     (let b = takeWhile (\<lambda>c. c \<noteq> CHR '':'') (take 63 s)
      in if b = [] then None else Some (b, drop (length b) s))"

text \<open>An ordinary character of the format matches itself.\<close>

definition scan_lit :: "char \<Rightarrow> string \<Rightarrow> string option" where
  "scan_lit c s = (case s of [] \<Rightarrow> None | x # r \<Rightarrow> if x = c then Some r else None)"

text \<open>
  The result of \<open>strtoul\<close> on the collected digits, stored through an
  \<open>unsigned int *\<close>: \<open>ULONG_MAX\<close> when the number does not fit in 64 bits, else the
  number, negated after a minus sign; the store keeps the low 32 bits
  (\<open>18446744073709551616\<close> is \<open>2 ^ 64\<close>).
\<close>

definition store_uint :: "bool \<Rightarrow> nat \<Rightarrow> c_uint" where
  "store_uint neg v =
     (if v \<ge> 18446744073709551616 then - 1 else if neg then - word_of_nat v else word_of_nat v)"

text \<open>
  \<open>%x\<close> skips white space, then reads an optional sign, an optional \<open>0x\<close> or
  \<open>0X\<close> and the hexadecimal digits that follow. The \<open>0\<close> of the prefix counts as a
  digit, so the conversion fails only when neither it nor any other digit was read.
\<close>

definition scan_hex :: "string \<Rightarrow> (c_uint \<times> string) option" where
  "scan_hex s =
     (let s1 = dropWhile isspace s;
          neg = (case s1 of [] \<Rightarrow> False | c # _ \<Rightarrow> c = CHR ''-'');
          s2 = (case s1 of [] \<Rightarrow> [] | c # r \<Rightarrow> if c = CHR ''-'' \<or> c = CHR ''+'' then r else s1);
          zero = (case s2 of [] \<Rightarrow> False | c # _ \<Rightarrow> c = CHR ''0'');
          s3 = (case s2 of
                  [] \<Rightarrow> []
                | c # r \<Rightarrow>
                    if c = CHR ''0'' then
                      (case r of
                         [] \<Rightarrow> []
                       | x # r' \<Rightarrow> if x = CHR ''x'' \<or> x = CHR ''X'' then r' else r)
                    else s2);
          ds = takeWhile isxdigit s3
      in if \<not> zero \<and> ds = [] then None
         else Some (store_uint neg (digits_value 16 ds), drop (length ds) s3))"

text \<open>
  The whole call: the return value of \<open>sscanf\<close> (the number of conversions stored,
  or \<open>EOF = -1\<close> when the input ends before the first one) and what was stored through
  each of the three pointers, if anything.
\<close>

definition sscanf_match :: "string \<Rightarrow> int \<times> string option \<times> c_uint option \<times> c_uint option" where
  "sscanf_match s =
     (if s = [] then (- 1, None, None, None)
      else
        case scan_busstr s of
          None \<Rightarrow> (0, None, None, None)
        | Some (b, s1) \<Rightarrow>
            (case scan_lit (CHR '':'') s1 of
               None \<Rightarrow> (1, Some b, None, None)
             | Some s2 \<Rightarrow>
                 (case scan_hex s2 of
                    None \<Rightarrow> (1, Some b, None, None)
                  | Some (v, s3) \<Rightarrow>
                      (case scan_lit (CHR '':'') s3 of
                         None \<Rightarrow> (2, Some b, Some v, None)
                       | Some s4 \<Rightarrow>
                           (case scan_hex s4 of
                              None \<Rightarrow> (2, Some b, Some v, None)
                            | Some (p, s5) \<Rightarrow> (3, Some b, Some v, Some p))))))"

subsection \<open>\<open>strtol\<close>\<close>

text \<open>
  \<open>strtol (s, NULL, base)\<close> for \<open>base\<close> 0 or 16, converted to \<open>int\<close> as both call
  sites do: white space, an optional sign, for base 0 or 16 an optional \<open>0x\<close>, for
  base 0 otherwise octal after a leading \<open>0\<close> and decimal else; then the digits of
  the base, none of which gives 0. The \<open>long\<close> saturates at \<open>LONG_MAX\<close> and
  \<open>LONG_MIN\<close> (\<open>9223372036854775807\<close> is \<open>2 ^ 63 - 1\<close>); the conversion to \<open>int\<close>
  keeps the low 32 bits.
\<close>

definition strtol_int :: "string \<Rightarrow> nat \<Rightarrow> c_int" where
  "strtol_int s base =
     (let s1 = dropWhile isspace s;
          neg = (case s1 of [] \<Rightarrow> False | c # _ \<Rightarrow> c = CHR ''-'');
          s2 = (case s1 of [] \<Rightarrow> [] | c # r \<Rightarrow> if c = CHR ''-'' \<or> c = CHR ''+'' then r else s1);
          hex = (case s2 of
                   c # x # _ \<Rightarrow> c = CHR ''0'' \<and> (x = CHR ''x'' \<or> x = CHR ''X'') \<and> (base = 0 \<or> base = 16)
                 | _ \<Rightarrow> False);
          b = (if hex then 16
               else if base = 0 then (case s2 of [] \<Rightarrow> 10 | c # _ \<Rightarrow> if c = CHR ''0'' then 8 else 10)
               else base);
          s3 = (if hex then drop 2 s2 else s2);
          v = digits_value b (takeWhile (is_digit_of b) s3);
          l = (if neg then (if v > 9223372036854775808 then - 9223372036854775808 else - int v)
               else (if v > 9223372036854775807 then 9223372036854775807 else int v))
      in word_of_int l)"

subsection \<open>\<open>g_strdup_printf ("%s:0x%x:0x%x", ...)\<close>\<close>

definition hex_char :: "nat \<Rightarrow> char" where
  "hex_char d = ''0123456789abcdef'' ! d"

fun hex_digits :: "nat \<Rightarrow> string" where
  "hex_digits n = (if n < 16 then [hex_char n] else hex_digits (n div 16) @ [hex_char (n mod 16)])"

text \<open>
  \<open>%x\<close> prints its argument as an \<open>unsigned int\<close>, whatever the signedness of the
  \<open>int\<close> passed: the word is read with \<open>unat\<close>.
\<close>

declare hex_digits.simps [simp del]

definition printf_match :: "string \<Rightarrow> 32 word \<Rightarrow> 32 word \<Rightarrow> string" where
  "printf_match b v p = b @ '':0x'' @ hex_digits (unat v) @ '':0x'' @ hex_digits (unat p)"

subsection \<open>GLib: \<open>g_strcmp0\<close>, key files, hash tables, warnings\<close>

text \<open>
  \<open>g_strcmp0\<close> compares two strings that may be \<open>NULL\<close>; \<open>NULL\<close> sorts before
  every string and equals only itself. The sources test the result against 0 only.
\<close>

definition g_strcmp0 :: "string option \<Rightarrow> string option \<Rightarrow> int" where
  "g_strcmp0 str1 str2 =
     (case (str1, str2) of
        (None, None) \<Rightarrow> 0
      | (None, Some _) \<Rightarrow> - 1
      | (Some _, None) \<Rightarrow> 1
      | (Some a, Some b) \<Rightarrow> if a = b then 0 else if a < b then - 1 else 1)"

text \<open>
  The key-file reader is an external capability. A loaded \<open>GKeyFile\<close> is what its
  getters answer: \<open>kf_string group key\<close> is the result of
  \<open>g_key_file_get_string\<close> (\<open>None\<close> for \<open>NULL\<close>), \<open>kf_integer\<close> is \<open>None\<close> when
  \<open>g_key_file_get_integer\<close> reports an error (key absent or not a number), and so on.
\<close>

record GKeyFile =
  kf_groups :: "string list"
  kf_string :: "string \<Rightarrow> string \<Rightarrow> string option"
  kf_boolean :: "string \<Rightarrow> string \<Rightarrow> bool option"
  kf_integer :: "string \<Rightarrow> string \<Rightarrow> c_int option"
  kf_string_list :: "string \<Rightarrow> string \<Rightarrow> string list option"

definition g_key_file_get_groups :: "GKeyFile \<Rightarrow> string list" where
  "g_key_file_get_groups keyfile = kf_groups keyfile"

definition g_key_file_get_string :: "GKeyFile \<Rightarrow> string \<Rightarrow> string \<Rightarrow> string option" where
  "g_key_file_get_string keyfile grp key = kf_string keyfile grp key"

text \<open>\<open>g_key_file_get_boolean\<close> returns \<open>FALSE\<close> on an error.\<close>

definition g_key_file_get_boolean :: "GKeyFile \<Rightarrow> string \<Rightarrow> string \<Rightarrow> bool" where
  "g_key_file_get_boolean keyfile grp key =
     (case kf_boolean keyfile grp key of None \<Rightarrow> False | Some b \<Rightarrow> b)"

text \<open>
  \<open>g_key_file_get_integer\<close> returns 0 on an error; the second component tells whether
  it set the \<open>GError\<close>.
\<close>

definition g_key_file_get_integer :: "GKeyFile \<Rightarrow> string \<Rightarrow> string \<Rightarrow> c_int \<times> bool" where
  "g_key_file_get_integer keyfile grp key =
     (case kf_integer keyfile grp key of None \<Rightarrow> (0, True) | Some v \<Rightarrow> (v, False))"

definition g_key_file_get_string_list :: "GKeyFile \<Rightarrow> string \<Rightarrow> string \<Rightarrow> string list option" where
  "g_key_file_get_string_list keyfile grp key = kf_string_list keyfile grp key"

text \<open>
  A \<open>GHashTable\<close> is an association list with one entry per key. The order of the list
  stands for the order in which GLib iterates over the table, which GLib leaves
  unspecified: no statement below depends on where \<open>g_hash_table_insert\<close> puts a new key.
  On a key that is present, \<open>g_hash_table_insert\<close> replaces the value.
\<close>

type_synonym ('k, 'v) GHashTable = "('k \<times> 'v) list"

fun g_hash_table_insert :: "('k, 'v) GHashTable \<Rightarrow> 'k \<Rightarrow> 'v \<Rightarrow> ('k, 'v) GHashTable" where
  "g_hash_table_insert [] key val = [(key, val)]"
| "g_hash_table_insert ((k, v) # ht) key val =
     (if k = key then (k, val) # ht else (k, v) # g_hash_table_insert ht key val)"

definition g_hash_table_lookup :: "('k, 'v) GHashTable \<Rightarrow> 'k \<Rightarrow> 'v option" where
  "g_hash_table_lookup ht key = map_of ht key"

definition g_hash_table_get_values :: "('k, 'v) GHashTable \<Rightarrow> 'v list" where
  "g_hash_table_get_values ht = map snd ht"

text \<open>
  The device table is created with \<open>g_str_hash\<close>, which reads the bytes of the key:
  inserting with a \<open>NULL\<close> key reads through a null pointer.
\<close>

definition g_hash_table_insert_str ::
  "(string, 'v) GHashTable \<Rightarrow> string option \<Rightarrow> 'v \<Rightarrow> abort + (string, 'v) GHashTable" where
  "g_hash_table_insert_str ht key val =
     (case key of None \<Rightarrow> Inl Null_dereference | Some k \<Rightarrow> Inr (g_hash_table_insert ht k val))"

text \<open>The \<open>g_warning\<close> calls of the sources, one constructor for each.\<close>

datatype g_warning =
  Warn_failed_stylus_id string
  | Warn_duplicate_stylus c_int
  | Warn_no_buttons c_int
  | Warn_no_type c_int

section \<open>The descriptor parser\<close>

definition FEATURE_GROUP :: string where
  "FEATURE_GROUP = ''Features''"

definition DEVICE_GROUP :: string where
  "DEVICE_GROUP = ''Device''"

definition SUFFIX :: string where
  "SUFFIX = ''.tablet''"

text \<open>
  Modelled from the spec: the macro \<open>GENERIC_DEVICE_MATCH\<close> is defined in a header that
  is not among the sources; the spec calls it the literal sentinel \<open>"generic"\<close>, the
  key \<open>libwacom_new_from_path\<close> looks up for its fallback.
\<close>

definition GENERIC_DEVICE_MATCH :: string where
  "GENERIC_DEVICE_MATCH = ''generic''"

text \<open>
  \<open>libwacom_matchstr_to_ints\<close>. The three out-parameters are passed as their values
  before the call and returned as their values after it: \<open>sscanf\<close> stores through
  \<open>vendor_id\<close> and \<open>product_id\<close> as soon as it has converted them, also when the
  call then returns 0. \<open>sscanf\<close> on a \<open>NULL\<close> string reads through a null pointer.
\<close>

definition libwacom_matchstr_to_ints ::
  "string option \<Rightarrow> c_uint \<times> c_uint \<times> WacomBusType
     \<Rightarrow> abort + (int \<times> c_uint \<times> c_uint \<times> WacomBusType)" where
  "libwacom_matchstr_to_ints str outs =
     (case str of
        None \<Rightarrow> Inl Null_dereference
      | Some m \<Rightarrow>
          (case outs of
             (vid, pid, b0) \<Rightarrow>
               (case sscanf_match m of
                  (rc, busstr, v, p) \<Rightarrow>
                    let vid' = (case v of None \<Rightarrow> vid | Some x \<Rightarrow> x);
                        pid' = (case p of None \<Rightarrow> pid | Some x \<Rightarrow> x)
                    in if rc \<noteq> 3 then Inr (0, vid', pid', b0)
                       else
                         Inr (1, vid', pid',
                              (case busstr of None \<Rightarrow> b0 | Some b \<Rightarrow> bus_from_str b)))))"

text \<open>
  The \<open>DeviceMatch\<close> block of \<open>libwacom_parse_tablet_keyfile\<close>: the literal
  \<open>generic\<close> is stored as it is; any other value goes through
  \<open>libwacom_matchstr_to_ints\<close> and, when that returns non-zero, the match key is
  printed from \<open>bus_to_str\<close> and the two ids.
\<close>

definition parse_device_match :: "string option \<Rightarrow> WacomDevice \<Rightarrow> abort + WacomDevice" where
  "parse_device_match m device =
     (if g_strcmp0 m (Some GENERIC_DEVICE_MATCH) = 0 then Inr (device\<lparr>match := m\<rparr>)
      else
        case libwacom_matchstr_to_ints m (vendor_id device, product_id device, bus device) of
          Inl a \<Rightarrow> Inl a
        | Inr (rc, v, p, b) \<Rightarrow>
            let device' = device\<lparr>vendor_id := v, product_id := p, bus := b\<rparr>
            in if rc = 0 then Inr device'
               else
                 (case bus_to_str b of
                    Inl a \<Rightarrow> Inl a
                  | Inr bs \<Rightarrow> Inr (device'\<lparr>match := Some (printf_match bs v p)\<rparr>)))"

text \<open>The \<open>Styli\<close> block: each entry through \<open>strtol (_, NULL, 0)\<close>, in order.\<close>

definition parse_styli :: "string list option \<Rightarrow> WacomDevice \<Rightarrow> WacomDevice" where
  "parse_styli styli_list device =
     (case styli_list of
        None \<Rightarrow> device
      | Some l \<Rightarrow>
          device\<lparr>supported_styli := map (\<lambda>s. strtol_int s 0) l, num_styli := length l\<rparr>)"

text \<open>One \<open>if (g_key_file_get_boolean (...)) device->features |= FEATURE_X\<close>.\<close>

definition parse_feature :: "GKeyFile \<Rightarrow> string \<Rightarrow> WacomFeature \<Rightarrow> WacomDevice \<Rightarrow> WacomDevice" where
  "parse_feature keyfile key flag device =
     (if g_key_file_get_boolean keyfile FEATURE_GROUP key
      then device\<lparr>features := insert flag (features device)\<rparr> else device)"

definition parse_features :: "GKeyFile \<Rightarrow> WacomDevice \<Rightarrow> WacomDevice" where
  "parse_features keyfile device =
     (let d1 = parse_feature keyfile ''Stylus'' FEATURE_STYLUS device;
          d2 = parse_feature keyfile ''Touch'' FEATURE_TOUCH d1;
          d3 = parse_feature keyfile ''Ring'' FEATURE_RING d2;
          d4 = parse_feature keyfile ''Ring2'' FEATURE_RING2 d3;
          d5 = parse_feature keyfile ''VStrip'' FEATURE_VSTRIP d4;
          d6 = parse_feature keyfile ''HStrip'' FEATURE_HSTRIP d5;
          d7 = parse_feature keyfile ''BuiltIn'' FEATURE_BUILTIN d6;
          d8 = parse_feature keyfile ''Reversible'' FEATURE_REVERSIBLE d7
      in d8\<lparr>num_buttons := fst (g_key_file_get_integer keyfile FEATURE_GROUP ''Buttons'')\<rparr>)"

text \<open>
  \<open>libwacom_parse_tablet_keyfile\<close>. The argument is the outcome of
  \<open>g_key_file_load_from_file\<close> on the path: \<open>None\<close> when the load failed, and then
  the function returns \<open>NULL\<close>.
  \<open>DBG\<close> is a debugging macro; what it prints is not part of the
  model.
\<close>

definition libwacom_parse_tablet_keyfile :: "GKeyFile option \<Rightarrow> abort + WacomDevice option" where
  "libwacom_parse_tablet_keyfile loaded =
     (case loaded of
        None \<Rightarrow> Inr None
      | Some keyfile \<Rightarrow>
          let device =
                g_new0_WacomDevice
                  \<lparr>vendor := g_key_file_get_string keyfile DEVICE_GROUP ''Vendor'',
                   product := g_key_file_get_string keyfile DEVICE_GROUP ''Product'',
                   width := fst (g_key_file_get_integer keyfile DEVICE_GROUP ''Width''),
                   height := fst (g_key_file_get_integer keyfile DEVICE_GROUP ''Height''),
                   cls := libwacom_model_string_to_enum
                            (g_key_file_get_string keyfile DEVICE_GROUP ''Class'')\<rparr>
          in case parse_device_match
                    (g_key_file_get_string keyfile DEVICE_GROUP ''DeviceMatch'') device of
               Inl a \<Rightarrow> Inl a
             | Inr device' \<Rightarrow>
                 Inr (Some (parse_features keyfile
                       (parse_styli
                          (g_key_file_get_string_list keyfile DEVICE_GROUP ''Styli'') device'))))"

section \<open>The stylus catalog parser\<close>

text \<open>
  The body of the loop of \<open>libwacom_parse_stylus_keyfile\<close> for a group whose name
  \<open>strtol\<close> reads as the non-zero id \<open>i\<close>: the stylus record it builds.
\<close>

definition parse_stylus_group :: "GKeyFile \<Rightarrow> string \<Rightarrow> c_int \<Rightarrow> WacomStylus" where
  "parse_stylus_group keyfile grp i =
     (let eraser = g_key_file_get_boolean keyfile grp ''IsEraser'';
          buttons = g_key_file_get_integer keyfile grp ''Buttons''
      in \<lparr>stylus_id = i,
          stylus_name = g_key_file_get_string keyfile grp ''Name'',
          stylus_num_buttons =
            (if eraser = False then (if fst buttons = 0 \<and> snd buttons then - 1 else fst buttons)
             else 0),
          has_eraser =
            (if eraser = False then g_key_file_get_boolean keyfile grp ''HasEraser'' else False),
          is_eraser = eraser,
          stylus_type = type_from_str (g_key_file_get_string keyfile grp ''Type'')\<rparr>)"

text \<open>
  The loop over the groups, on the stylus table and the warnings given so far. A group
  whose id is 0 gives a warning and is skipped; an id that is already in the table
  gives a warning and the new record replaces the old one.
\<close>

fun parse_stylus_groups ::
  "GKeyFile \<Rightarrow> string list \<Rightarrow> (c_int, WacomStylus) GHashTable \<times> g_warning list
     \<Rightarrow> (c_int, WacomStylus) GHashTable \<times> g_warning list" where
  "parse_stylus_groups keyfile [] st = st"
| "parse_stylus_groups keyfile (g # groups) (ht, warnings) =
     (if strtol_int g 16 = 0
      then parse_stylus_groups keyfile groups (ht, warnings @ [Warn_failed_stylus_id g])
      else
        parse_stylus_groups keyfile groups
          (g_hash_table_insert ht (strtol_int g 16) (parse_stylus_group keyfile g (strtol_int g 16)),
           if g_hash_table_lookup ht (strtol_int g 16) \<noteq> None
           then warnings @ [Warn_duplicate_stylus (strtol_int g 16)] else warnings))"

text \<open>
  \<open>libwacom_parse_stylus_keyfile\<close>: \<open>g_assert (rc)\<close> stops the process when the
  catalog cannot be loaded.
\<close>

definition libwacom_parse_stylus_keyfile ::
  "(c_int, WacomStylus) GHashTable \<Rightarrow> GKeyFile option
     \<Rightarrow> abort + ((c_int, WacomStylus) GHashTable \<times> g_warning list)" where
  "libwacom_parse_stylus_keyfile ht loaded =
     (case loaded of
        None \<Rightarrow> Inl Assert_failed
      | Some keyfile \<Rightarrow> Inr (parse_stylus_groups keyfile (g_key_file_get_groups keyfile) (ht, [])))"

section \<open>The database builder\<close>

record WacomDeviceDatabase =
  device_ht :: "(string, WacomDevice) GHashTable"
  stylus_ht :: "(c_int, WacomStylus) GHashTable option"

text \<open>
  What the load reads from the file system: the names in the data directory in the
  order the system lists them (\<open>None\<close> when the directory cannot be read), the outcome
  of \<open>g_key_file_load_from_file\<close> on each name, and its outcome on the stylus catalog.
\<close>

record datadir =
  dir_names :: "string list option"
  dir_load :: "string \<Rightarrow> GKeyFile option"
  dir_stylus :: "GKeyFile option"

definition scandir_filter :: "string \<Rightarrow> bool" where
  "scandir_filter nm =
     (if (case nm of [] \<Rightarrow> False | c # _ \<Rightarrow> c = CHR ''.'') then False
      else if length nm \<le> length SUFFIX then False
      else drop (length nm - length SUFFIX) nm = SUFFIX)"

text \<open>
  \<open>scandir (DATADIR, &files, scandir_filter, alphasort)\<close>: the names that pass the
  filter, sorted. \<open>alphasort\<close> compares with \<open>strcoll\<close>, which in the C locale is the
  order of the bytes, the order of \<open>string\<close> here.
\<close>

definition scandir :: "datadir \<Rightarrow> string list option" where
  "scandir dir = (case dir_names dir of None \<Rightarrow> None | Some ns \<Rightarrow> Some (sort (filter scandir_filter ns)))"

text \<open>
  The loop \<open>while (n--)\<close> of \<open>libwacom_database_new\<close>: with \<open>n\<close> files left it
  parses \<open>files[n - 1]\<close> and inserts the device under \<open>g_strdup (d->match)\<close>, which
  is \<open>NULL\<close> when the match key is.
\<close>

fun load_tablets ::
  "(string \<Rightarrow> GKeyFile option) \<Rightarrow> string list \<Rightarrow> nat \<Rightarrow> (string, WacomDevice) GHashTable
     \<Rightarrow> abort + (string, WacomDevice) GHashTable" where
  "load_tablets ld files 0 ht = Inr ht"
| "load_tablets ld files (Suc n) ht =
     (case libwacom_parse_tablet_keyfile (ld (files ! n)) of
        Inl a \<Rightarrow> Inl a
      | Inr None \<Rightarrow> load_tablets ld files n ht
      | Inr (Some d) \<Rightarrow>
          (case g_hash_table_insert_str ht (match d) d of
             Inl a \<Rightarrow> Inl a
           | Inr ht' \<Rightarrow> load_tablets ld files n ht'))"

text \<open>
  \<open>libwacom_database_new\<close> returns the database and the warnings given on the way.
  When \<open>scandir\<close> finds nothing (\<open>n <= 0\<close>) it returns at once, the stylus table
  still \<open>NULL\<close>.
\<close>

definition libwacom_database_new :: "datadir \<Rightarrow> abort + (WacomDeviceDatabase \<times> g_warning list)" where
  "libwacom_database_new dir =
     (case scandir dir of
        None \<Rightarrow> Inr (\<lparr>device_ht = [], stylus_ht = None\<rparr>, [])
      | Some files \<Rightarrow>
          if length files = 0 then Inr (\<lparr>device_ht = [], stylus_ht = None\<rparr>, [])
          else
            (case load_tablets (dir_load dir) files (length files) [] of
               Inl a \<Rightarrow> Inl a
             | Inr ht \<Rightarrow>
                 (case libwacom_parse_stylus_keyfile [] (dir_stylus dir) of
                    Inl a \<Rightarrow> Inl a
                  | Inr (sht, warnings) \<Rightarrow>
                      Inr (\<lparr>device_ht = ht, stylus_ht = Some sht\<rparr>, warnings))))"

section \<open>Resolvers and accessors\<close>

datatype WacomErrorCode = WERROR_INVALID_PATH | WERROR_INVALID_DB | WERROR_UNKNOWN_MODEL

text \<open>
  The error object a caller passes in: the code of the error reported (\<open>None\<close> while
  nothing was reported) and the optional message.
\<close>

record WacomError =
  err_code :: "WacomErrorCode option"
  err_msg :: "string option"

text \<open>
  Modelled from the spec: \<open>libwacom_error_set\<close> is defined in a file that is not among
  the sources. By the spec a caller sees a typed error with an optional descriptive
  message: the call stores the code and the message in the caller's error object. The
  object is passed by pointer, and a caller may pass \<open>NULL\<close> (\<open>None\<close>).
\<close>

definition libwacom_error_set ::
  "WacomError option \<Rightarrow> WacomErrorCode \<Rightarrow> string option \<Rightarrow> WacomError option" where
  "libwacom_error_set error c m =
     (case error of None \<Rightarrow> None | Some e \<Rightarrow> Some (e\<lparr>err_code := Some c, err_msg := m\<rparr>))"

definition libwacom_get_device :: "WacomDeviceDatabase \<Rightarrow> string \<Rightarrow> WacomDevice option" where
  "libwacom_get_device db str = g_hash_table_lookup (device_ht db) str"

text \<open>
  \<open>libwacom_copy\<close>, field by field; \<open>g_memdup\<close> copies the first \<open>num_styli\<close>
  entries of the stylus list.
\<close>

definition libwacom_copy :: "WacomDevice \<Rightarrow> WacomDevice" where
  "libwacom_copy device =
     g_new0_WacomDevice
       \<lparr>vendor := vendor device,
        product := product device,
        width := width device,
        height := height device,
        match := match device,
        vendor_id := vendor_id device,
        product_id := product_id device,
        cls := cls device,
        bus := bus device,
        num_buttons := num_buttons device,
        supported_styli := take (num_styli device) (supported_styli device),
        num_styli := num_styli device,
        features := features device\<rparr>"

definition libwacom_new ::
  "WacomDeviceDatabase option \<Rightarrow> c_int \<Rightarrow> c_int \<Rightarrow> WacomBusType \<Rightarrow> WacomError option
     \<Rightarrow> abort + (WacomDevice option \<times> WacomError option)" where
  "libwacom_new db vid pid b error =
     (case db of
        None \<Rightarrow> Inr (None, libwacom_error_set error WERROR_INVALID_DB (Some ''db is NULL''))
      | Some d \<Rightarrow>
          (case bus_to_str b of
             Inl a \<Rightarrow> Inl a
           | Inr bs \<Rightarrow> Inr (libwacom_get_device d (printf_match bs vid pid), error)))"

definition libwacom_new_from_usbid ::
  "WacomDeviceDatabase option \<Rightarrow> c_int \<Rightarrow> c_int \<Rightarrow> WacomError option
     \<Rightarrow> abort + (WacomDevice option \<times> WacomError option)" where
  "libwacom_new_from_usbid db vid pid error =
     (case libwacom_new db vid pid WBUSTYPE_USB error of
        Inl a \<Rightarrow> Inl a
      | Inr (device, error') \<Rightarrow>
          (case device of
             Some d \<Rightarrow> Inr (Some (libwacom_copy d), error')
           | None \<Rightarrow> Inr (None, libwacom_error_set error' WERROR_UNKNOWN_MODEL None)))"

text \<open>
  The loop of \<open>libwacom_new_from_name\<close> over \<open>g_hash_table_get_values\<close>: the first
  device whose product \<open>g_strcmp0\<close> finds equal to the name.
\<close>

fun find_product :: "WacomDevice list \<Rightarrow> string option \<Rightarrow> WacomDevice option" where
  "find_product [] nm = None"
| "find_product (d # l) nm = (if g_strcmp0 (product d) nm = 0 then Some d else find_product l nm)"

definition libwacom_new_from_name ::
  "WacomDeviceDatabase option \<Rightarrow> string option \<Rightarrow> WacomError option
     \<Rightarrow> WacomDevice option \<times> WacomError option" where
  "libwacom_new_from_name db nm error =
     (case db of
        None \<Rightarrow> (None, libwacom_error_set error WERROR_INVALID_DB (Some ''db is NULL''))
      | Some d \<Rightarrow>
          (case find_product (g_hash_table_get_values (device_ht d)) nm of
             Some device \<Rightarrow> (Some (libwacom_copy device), error)
           | None \<Rightarrow> (None, libwacom_error_set error WERROR_UNKNOWN_MODEL None)))"

text \<open>\<open>libwacom_stylus_get_num_buttons\<close>: the value returned and the warnings given.\<close>

definition libwacom_stylus_get_num_buttons :: "WacomStylus \<Rightarrow> c_int \<times> g_warning list" where
  "libwacom_stylus_get_num_buttons stylus =
     (if stylus_num_buttons stylus = - 1 then (2, [Warn_no_buttons (stylus_id stylus)])
      else (stylus_num_buttons stylus, []))"

definition libwacom_stylus_get_type :: "WacomStylus \<Rightarrow> WacomStylusType \<times> g_warning list" where
  "libwacom_stylus_get_type stylus =
     (if stylus_type stylus = WSTYLUS_UNKNOWN then (WSTYLUS_GENERAL, [Warn_no_type (stylus_id stylus)])
      else (stylus_type stylus, []))"

section \<open>The match-key pattern of the specification\<close>

text \<open>
  These definitions follow the words of the specification, not the code: a match key
  has the form \<open><bus-name>:<hex-vendor>:<hex-product>\<close>. Read as a pattern for the
  whole string, it splits at its two colons into a bus name of 1 to 63 characters and
  two hexadecimal fields, each a non-empty run of hexadecimal digits that may follow a
  \<open>0x\<close> or \<open>0X\<close>. \<open>spec_match_key_fields\<close> returns the three fields of a string that
  has this form and \<open>None\<close> for any other string; \<open>hex_field_value\<close> is the number
  a hexadecimal field denotes, as an \<open>unsigned int\<close>.
\<close>

definition hex_field_digits :: "string \<Rightarrow> string" where
  "hex_field_digits h = (if take 2 h = ''0x'' \<or> take 2 h = ''0X'' then drop 2 h else h)"

definition hex_field :: "string \<Rightarrow> bool" where
  "hex_field h = (hex_field_digits h \<noteq> [] \<and> list_all isxdigit (hex_field_digits h))"

definition hex_field_value :: "string \<Rightarrow> c_uint" where
  "hex_field_value h = store_uint False (digits_value 16 (hex_field_digits h))"

definition spec_match_key_fields :: "string \<Rightarrow> (string \<times> string \<times> string) option" where
  "spec_match_key_fields s =
     (let b = takeWhile (\<lambda>c. c \<noteq> CHR '':'') s
      in case dropWhile (\<lambda>c. c \<noteq> CHR '':'') s of
           [] \<Rightarrow> None
         | _ # r1 \<Rightarrow>
             (let v = takeWhile (\<lambda>c. c \<noteq> CHR '':'') r1
              in case dropWhile (\<lambda>c. c \<noteq> CHR '':'') r1 of
                   [] \<Rightarrow> None
                 | _ # p \<Rightarrow>
                     if b \<noteq> [] \<and> length b \<le> 63 \<and> hex_field v \<and> hex_field p
                     then Some (b, v, p) else None))"

text \<open>
  A second reading of the pattern, as a pattern for the beginning of the string, with
  the hexadecimal fields as a scan of \<open>%x\<close> takes them: a field may begin with white
  space and a sign, and then has a hexadecimal digit; its digits are those after an
  optional leading \<open>0\<close> or \<open>0x\<close>. The vendor field is the text between the first two
  colons and must be such a field as a whole (\<open>scanned_hex_field\<close>); the product field
  is everything after the second colon and need only begin as one
  (\<open>scanned_hex_start\<close>), whatever follows its digits. \<open>match_key_scan_fields\<close>
  returns the bus name and the two fields of a string of this form, and \<open>None\<close> for
  any other string; \<open>scanned_hex_value\<close> is the number a field denotes.
\<close>

definition strip_sign :: "string \<Rightarrow> string" where
  "strip_sign t = (case t of [] \<Rightarrow> [] | c # r \<Rightarrow> if c = CHR ''-'' \<or> c = CHR ''+'' then r else t)"

definition after_0x :: "string \<Rightarrow> string" where
  "after_0x u =
     (case u of
        [] \<Rightarrow> []
      | c # r \<Rightarrow>
          if c = CHR ''0''
          then (case r of [] \<Rightarrow> [] | x # r' \<Rightarrow> if x = CHR ''x'' \<or> x = CHR ''X'' then r' else r)
          else u)"

definition scanned_hex_start :: "string \<Rightarrow> bool" where
  "scanned_hex_start t =
     (case strip_sign (dropWhile isspace t) of [] \<Rightarrow> False | c # _ \<Rightarrow> isxdigit c)"

definition scanned_hex_field :: "string \<Rightarrow> bool" where
  "scanned_hex_field f =
     (scanned_hex_start f \<and> list_all isxdigit (after_0x (strip_sign (dropWhile isspace f))))"

definition scanned_hex_value :: "string \<Rightarrow> c_uint" where
  "scanned_hex_value t =
     store_uint (case dropWhile isspace t of [] \<Rightarrow> False | c # _ \<Rightarrow> c = CHR ''-'')
       (digits_value 16 (takeWhile isxdigit (after_0x (strip_sign (dropWhile isspace t)))))"

definition match_key_scan_fields :: "string \<Rightarrow> (string \<times> string \<times> string) option" where
  "match_key_scan_fields s =
     (let b = takeWhile (\<lambda>c. c \<noteq> CHR '':'') s
      in case dropWhile (\<lambda>c. c \<noteq> CHR '':'') s of
           [] \<Rightarrow> None
         | _ # r1 \<Rightarrow>
             (let v = takeWhile (\<lambda>c. c \<noteq> CHR '':'') r1
              in case dropWhile (\<lambda>c. c \<noteq> CHR '':'') r1 of
                   [] \<Rightarrow> None
                 | _ # p \<Rightarrow>
                     if b \<noteq> [] \<and> length b \<le> 63 \<and> scanned_hex_field v \<and> scanned_hex_start p
                     then Some (b, v, p) else None))"

section \<open>Concrete inputs\<close>

text \<open>
  A stylus catalog with the one group \<open>[1a]\<close> that sets \<open>IsEraser=true\<close> together with
  the conflicting \<open>HasEraser=true\<close> and \<open>Buttons=2\<close>.
\<close>

definition kf_eraser :: GKeyFile where
  "kf_eraser =
     \<lparr>kf_groups = [''1a''],
      kf_string = (\<lambda>g k. if g = ''1a'' \<and> k = ''Name'' then Some ''Eraser'' else None),
      kf_boolean =
        (\<lambda>g k. if g = ''1a'' \<and> (k = ''IsEraser'' \<or> k = ''HasEraser'') then Some True else None),
      kf_integer = (\<lambda>g k. if g = ''1a'' \<and> k = ''Buttons'' then Some 2 else None),
      kf_string_list = (\<lambda>g k. None)\<rparr>"

text \<open>
  Two device tables for the lookup by name: one whose second device has no
  \<open>Product\<close> (and two styli, a class and features, so that it differs from a zeroed
  device in many fields), and one in which every device has a product name.
\<close>

definition dev_named :: WacomDevice where
  "dev_named = g_new0_WacomDevice\<lparr>product := Some ''Intuos4 6x9'', match := Some ''usb:0x56a:0xb9''\<rparr>"

definition dev_unnamed :: WacomDevice where
  "dev_unnamed =
     g_new0_WacomDevice
       \<lparr>vendor := Some ''Wacom'', width := 9, height := 6, match := Some ''usb:0x56a:0x81'',
        vendor_id := 0x56a, product_id := 0x81, cls := WCLASS_INTUOS4, bus := WBUSTYPE_USB,
        num_buttons := 9, supported_styli := [0x802, 0x80a], num_styli := 2,
        features := {FEATURE_STYLUS, FEATURE_RING}\<rparr>"

definition db_unnamed :: WacomDeviceDatabase where
  "db_unnamed =
     \<lparr>device_ht = [(''usb:0x56a:0xb9'', dev_named), (''usb:0x56a:0x81'', dev_unnamed)],
      stylus_ht = Some []\<rparr>"

definition db_named :: WacomDeviceDatabase where
  "db_named = \<lparr>device_ht = [(''usb:0x56a:0xb9'', dev_named)], stylus_ht = Some []\<rparr>"

text \<open>
  The key file of a descriptor that holds a \<open>[Device]\<close> group of string entries and
  nothing else: the boolean, integer and list getters find no key.
\<close>

definition device_keyfile :: "(string \<times> string) list \<Rightarrow> GKeyFile" where
  "device_keyfile kvs =
     \<lparr>kf_groups = [''Device''],
      kf_string = (\<lambda>g k. if g = ''Device'' then map_of kvs k else None),
      kf_boolean = (\<lambda>g k. None),
      kf_integer = (\<lambda>g k. None),
      kf_string_list = (\<lambda>g k. None)\<rparr>"

text \<open>
  Three descriptors: one whose \<open>DeviceMatch\<close> names a bus that is none of \<open>usb\<close>,
  \<open>serial\<close>, \<open>bluetooth\<close>; one whose \<open>DeviceMatch\<close> does not scan; a well-formed one,
  with the device it parses to.
\<close>

definition kf_unknown_bus :: GKeyFile where
  "kf_unknown_bus = device_keyfile [(''Product'', ''Foo''), (''DeviceMatch'', ''foo:1:2'')]"

definition kf_unparseable :: GKeyFile where
  "kf_unparseable = device_keyfile [(''Product'', ''Bogus''), (''DeviceMatch'', ''bogus'')]"



text \<open>
  A data directory that holds the descriptor that does not scan and an empty stylus
  catalog.
\<close>

definition dir_unparseable :: datadir where
  "dir_unparseable =
     \<lparr>dir_names = Some [''.'', ''..'', ''bogus.tablet''],
      dir_load = (\<lambda>nm. if nm = ''bogus.tablet'' then Some kf_unparseable else None),
      dir_stylus = Some \<lparr>kf_groups = [], kf_string = (\<lambda>g k. None), kf_boolean = (\<lambda>g k. None),
                         kf_integer = (\<lambda>g k. None), kf_string_list = (\<lambda>g k. None)\<rparr>\<rparr>"

text \<open>
  A data directory with two descriptors, \<open>a.tablet\<close> and \<open>b.tablet\<close>, that carry the
  same \<open>DeviceMatch\<close> and different product names, the devices they parse to, and the
  database the load builds from the directory.
\<close>

definition kf_dup_a :: GKeyFile where
  "kf_dup_a = device_keyfile [(''Product'', ''A''), (''DeviceMatch'', ''usb:1:2'')]"

definition kf_dup_b :: GKeyFile where
  "kf_dup_b = device_keyfile [(''Product'', ''B''), (''DeviceMatch'', ''usb:1:2'')]"

definition dev_dup_a :: WacomDevice where
  "dev_dup_a =
     g_new0_WacomDevice
       \<lparr>product := Some ''A'', match := Some ''usb:0x1:0x2'', vendor_id := 1, product_id := 2,
        bus := WBUSTYPE_USB\<rparr>"

definition dev_dup_b :: WacomDevice where
  "dev_dup_b =
     g_new0_WacomDevice
       \<lparr>product := Some ''B'', match := Some ''usb:0x1:0x2'', vendor_id := 1, product_id := 2,
        bus := WBUSTYPE_USB\<rparr>"

definition dir_duplicate :: datadir where
  "dir_duplicate =
     \<lparr>dir_names = Some [''.'', ''..'', ''b.tablet'', ''a.tablet''],
      dir_load = (\<lambda>nm. if nm = ''a.tablet'' then Some kf_dup_a
                       else if nm = ''b.tablet'' then Some kf_dup_b else None),
      dir_stylus = Some \<lparr>kf_groups = [], kf_string = (\<lambda>g k. None), kf_boolean = (\<lambda>g k. None),
                         kf_integer = (\<lambda>g k. None), kf_string_list = (\<lambda>g k. None)\<rparr>\<rparr>"

definition db_duplicate :: WacomDeviceDatabase where
  "db_duplicate = \<lparr>device_ht = [(''usb:0x1:0x2'', dev_dup_a)], stylus_ht = Some []\<rparr>"

section \<open>The stylus catalog\<close>

lemma g_hash_table_insert_values:
  "snd ` set (g_hash_table_insert ht k v) \<subseteq> insert v (snd ` set ht)"
  by (induction ht k v rule: g_hash_table_insert.induct) auto

lemma parse_stylus_group_eraser:
  "is_eraser (parse_stylus_group keyfile grp i) = g_key_file_get_boolean keyfile grp ''IsEraser''"
  "g_key_file_get_boolean keyfile grp ''IsEraser'' \<Longrightarrow> has_eraser (parse_stylus_group keyfile grp i) = False"
  "g_key_file_get_boolean keyfile grp ''IsEraser'' \<Longrightarrow> stylus_num_buttons (parse_stylus_group keyfile grp i) = 0"
  by (simp_all add: parse_stylus_group_def Let_def)

lemma parse_stylus_groups_eraser:
  assumes "\<forall>s \<in> snd ` set (fst st). is_eraser s \<longrightarrow> \<not> has_eraser s \<and> stylus_num_buttons s = 0"
  shows "\<forall>s \<in> snd ` set (fst (parse_stylus_groups keyfile gs st)).
           is_eraser s \<longrightarrow> \<not> has_eraser s \<and> stylus_num_buttons s = 0"
  using assms
proof (induction gs arbitrary: st)
  case Nil
  then show ?case by simp
next
  case (Cons g groups)
  obtain ht warnings where st: "st = (ht, warnings)" by (cases st)
  let ?i = "strtol_int g 16"
  show ?case
  proof (cases "?i = 0")
    case True
    have "parse_stylus_groups keyfile (g # groups) st =
          parse_stylus_groups keyfile groups (ht, warnings @ [Warn_failed_stylus_id g])"
      unfolding st using True by (simp only: parse_stylus_groups.simps if_True simp_thms)
    moreover have "\<forall>s \<in> snd ` set (fst (ht, warnings @ [Warn_failed_stylus_id g])).
        is_eraser s \<longrightarrow> \<not> has_eraser s \<and> stylus_num_buttons s = 0"
      using Cons.prems unfolding st by (simp only: fst_conv)
    ultimately show ?thesis using Cons.IH by presburger
  next
    case False
    let ?ht = "g_hash_table_insert ht ?i (parse_stylus_group keyfile g ?i)"
    let ?w = "if g_hash_table_lookup ht ?i \<noteq> None
           then warnings @ [Warn_duplicate_stylus ?i] else warnings"
    have "parse_stylus_groups keyfile (g # groups) st = parse_stylus_groups keyfile groups (?ht, ?w)"
      unfolding st using False by (simp only: parse_stylus_groups.simps if_False simp_thms)
    moreover have "\<forall>s \<in> snd ` set ?ht.
            is_eraser s \<longrightarrow> \<not> has_eraser s \<and> stylus_num_buttons s = 0"
    proof
      fix s assume "s \<in> snd ` set ?ht"
      with g_hash_table_insert_values [of ht ?i "parse_stylus_group keyfile g ?i"]
      have "s = parse_stylus_group keyfile g ?i \<or> s \<in> snd ` set ht" by blast
      then show "is_eraser s \<longrightarrow> \<not> has_eraser s \<and> stylus_num_buttons s = 0"
      proof
        assume "s = parse_stylus_group keyfile g ?i"
        then show ?thesis by (simp add: parse_stylus_group_eraser)
      next
        assume "s \<in> snd ` set ht"
        with Cons.prems show ?thesis unfolding st fst_conv by blast
      qed
    qed
    then have "\<forall>s \<in> snd ` set (fst (?ht, ?w)).
            is_eraser s \<longrightarrow> \<not> has_eraser s \<and> stylus_num_buttons s = 0"
      by (simp only: fst_conv)
    ultimately show ?thesis using Cons.IH by presburger
  qed
qed

text \<open>
  C7. A stylus group whose \<open>IsEraser\<close> is true gives a record that is an eraser, has no
  eraser and has 0 buttons, whatever \<open>HasEraser\<close> and \<open>Buttons\<close> the file holds for the
  group; and every eraser in the stylus table that \<open>libwacom_parse_stylus_keyfile\<close>
  returns has no eraser and 0 buttons.
\<close>

theorem eraser_forces_fields:
  "(g_key_file_get_boolean keyfile grp ''IsEraser'' \<longrightarrow>
      is_eraser (parse_stylus_group keyfile grp i)
      \<and> has_eraser (parse_stylus_group keyfile grp i) = False
      \<and> stylus_num_buttons (parse_stylus_group keyfile grp i) = 0)
   \<and> (libwacom_parse_stylus_keyfile [] (Some keyfile) = Inr (ht, warnings)
        \<and> g_hash_table_lookup ht j = Some s \<and> is_eraser s \<longrightarrow>
      has_eraser s = False \<and> stylus_num_buttons s = 0)"
proof (intro conjI impI)
  assume "g_key_file_get_boolean keyfile grp ''IsEraser''"
  then show "is_eraser (parse_stylus_group keyfile grp i)"
    "has_eraser (parse_stylus_group keyfile grp i) = False"
    "stylus_num_buttons (parse_stylus_group keyfile grp i) = 0"
    by (simp_all add: parse_stylus_group_eraser)
next
  assume a: "libwacom_parse_stylus_keyfile [] (Some keyfile) = Inr (ht, warnings)
     \<and> g_hash_table_lookup ht j = Some s \<and> is_eraser s"
  then have ht: "ht = fst (parse_stylus_groups keyfile (g_key_file_get_groups keyfile) ([], []))"
    by (auto simp: libwacom_parse_stylus_keyfile_def)
  from a have "s \<in> snd ` set ht"
    by (auto simp: g_hash_table_lookup_def dest!: map_of_SomeD intro: rev_image_eqI)
  moreover have "\<forall>s \<in> snd ` set ht. is_eraser s \<longrightarrow> \<not> has_eraser s \<and> stylus_num_buttons s = 0"
    unfolding ht by (rule parse_stylus_groups_eraser) simp
  ultimately have "\<not> has_eraser s \<and> stylus_num_buttons s = 0" using a by blast
  then show "has_eraser s = False" "stylus_num_buttons s = 0" by simp_all
qed

lemma strtol_int_1a: "strtol_int ''1a'' 16 = 26"
  by (simp add: strtol_int_def isspace_def is_digit_of_def digit_val_def digits_value_def)

lemma kf_eraser_groups: "g_key_file_get_groups kf_eraser = [''1a'']"
  by (simp add: g_key_file_get_groups_def kf_eraser_def)

lemma kf_eraser_parse:
  "libwacom_parse_stylus_keyfile [] (Some kf_eraser) =
     Inr ([(26, parse_stylus_group kf_eraser ''1a'' 26)], [])"
  by (simp add: libwacom_parse_stylus_keyfile_def kf_eraser_groups strtol_int_1a
      g_hash_table_lookup_def)

theorem eraser_forces_fields_witness:
  "g_key_file_get_boolean kf_eraser ''1a'' ''HasEraser''
   \<and> g_key_file_get_integer kf_eraser ''1a'' ''Buttons'' = (2, False)
   \<and> g_key_file_get_boolean kf_eraser ''1a'' ''IsEraser''
   \<and> libwacom_parse_stylus_keyfile [] (Some kf_eraser) =
        Inr ([(26, parse_stylus_group kf_eraser ''1a'' 26)], [])
   \<and> g_hash_table_lookup [(26 :: c_int, parse_stylus_group kf_eraser ''1a'' 26)] 26 =
        Some (parse_stylus_group kf_eraser ''1a'' 26)
   \<and> is_eraser (parse_stylus_group kf_eraser ''1a'' 26)
   \<and> has_eraser (parse_stylus_group kf_eraser ''1a'' 26) = False
   \<and> stylus_num_buttons (parse_stylus_group kf_eraser ''1a'' 26) = 0"
proof -
  have b: "g_key_file_get_boolean kf_eraser ''1a'' ''IsEraser''"
    "g_key_file_get_boolean kf_eraser ''1a'' ''HasEraser''"
    "g_key_file_get_integer kf_eraser ''1a'' ''Buttons'' = (2, False)"
    by (simp_all add: g_key_file_get_boolean_def g_key_file_get_integer_def kf_eraser_def)
  have l: "g_hash_table_lookup [(26 :: c_int, parse_stylus_group kf_eraser ''1a'' 26)] 26 =
        Some (parse_stylus_group kf_eraser ''1a'' 26)"
    by (simp add: g_hash_table_lookup_def)
  from eraser_forces_fields
    [of kf_eraser "''1a''" 26 "[(26, parse_stylus_group kf_eraser ''1a'' 26)]" "[]" 26
      "parse_stylus_group kf_eraser ''1a'' 26"] b(1) kf_eraser_parse l
  have "is_eraser (parse_stylus_group kf_eraser ''1a'' 26)
      \<and> has_eraser (parse_stylus_group kf_eraser ''1a'' 26) = False
      \<and> stylus_num_buttons (parse_stylus_group kf_eraser ''1a'' 26) = 0"
    by blast
  with b kf_eraser_parse l show ?thesis by blast
qed

text \<open>
  C8. The button-count accessor returns 2 when the stored count is the sentinel \<open>- 1\<close>
  and the stored count otherwise; it never returns \<open>- 1\<close>.
\<close>

theorem stylus_button_count_accessor:
  "fst (libwacom_stylus_get_num_buttons stylus) =
     (if stylus_num_buttons stylus = - 1 then 2 else stylus_num_buttons stylus)
   \<and> fst (libwacom_stylus_get_num_buttons stylus) \<noteq> - 1"
  by (simp add: libwacom_stylus_get_num_buttons_def)

section \<open>The bus mappers\<close>

text \<open>
  C6. \<open>bus_to_str (bus_from_str s)\<close> is \<open>s\<close> for \<open>usb\<close> and for \<open>bluetooth\<close>, and
  \<open>bus_to_str\<close> of the serial bus is the string \<open>bluetooth\<close>, not \<open>serial\<close>.
\<close>

theorem bus_round_trip:
  "bus_to_str (bus_from_str ''usb'') = Inr ''usb''
   \<and> bus_to_str (bus_from_str ''bluetooth'') = Inr ''bluetooth''
   \<and> bus_to_str WBUSTYPE_SERIAL = Inr ''bluetooth''
   \<and> bus_to_str WBUSTYPE_SERIAL \<noteq> Inr ''serial''"
  by (simp add: bus_from_str_def)

section \<open>The resolvers\<close>

lemma g_strcmp0_NULL: "g_strcmp0 p None = 0 \<longleftrightarrow> p = None"
  by (cases p) (simp_all add: g_strcmp0_def)

lemma find_product_NULL_first:
  "list_all (\<lambda>x. product x \<noteq> None) pre \<Longrightarrow> product d = None \<Longrightarrow>
   find_product (pre @ d # post) None = Some d"
  by (induction pre) (auto simp: g_strcmp0_NULL)

lemma find_product_NULL_none:
  "list_all (\<lambda>x. product x \<noteq> None) l \<Longrightarrow> find_product l None = None"
  by (induction l) (auto simp: g_strcmp0_NULL)

lemma libwacom_copy_fields:
  "libwacom_copy d = d\<lparr>supported_styli := take (num_styli d) (supported_styli d)\<rparr>"
  by (cases d) (simp add: libwacom_copy_def g_new0_WacomDevice_def)

lemma libwacom_copy_same:
  "num_styli d = length (supported_styli d) \<Longrightarrow> libwacom_copy d = d"
  by (simp add: libwacom_copy_fields)

text \<open>
  C10. \<open>libwacom_new_from_name\<close> with a \<open>NULL\<close> name on a database: when the values of
  the device table, in iteration order, are devices with a product name followed by a
  device \<open>d\<close> without one, the call returns a device that has every field of \<open>d\<close>,
  its stylus list being the first \<open>num_styli\<close> entries of the list of \<open>d\<close> (so it is
  \<open>d\<close> itself when \<open>num_styli\<close> is the length of the list, as it is for every parsed
  device), and leaves the error object as it was; when every device has a product
  name, it returns \<open>NULL\<close> and stores \<open>WERROR_UNKNOWN_MODEL\<close> in the error object.
\<close>

theorem new_from_name_null_name:
  "(g_hash_table_get_values (device_ht db) = pre @ d # post
      \<and> list_all (\<lambda>x. product x \<noteq> None) pre \<and> product d = None \<longrightarrow>
    libwacom_new_from_name (Some db) None error =
      (Some (d\<lparr>supported_styli := take (num_styli d) (supported_styli d)\<rparr>), error)
    \<and> (num_styli d = length (supported_styli d) \<longrightarrow>
         libwacom_new_from_name (Some db) None error = (Some d, error)))
   \<and> (list_all (\<lambda>x. product x \<noteq> None) (g_hash_table_get_values (device_ht db)) \<longrightarrow>
    libwacom_new_from_name (Some db) None error =
      (None,
       case error of
         None \<Rightarrow> None
       | Some e \<Rightarrow> Some (e\<lparr>err_code := Some WERROR_UNKNOWN_MODEL, err_msg := None\<rparr>)))"
proof (intro conjI impI)
  assume a: "g_hash_table_get_values (device_ht db) = pre @ d # post
      \<and> list_all (\<lambda>x. product x \<noteq> None) pre \<and> product d = None"
  then have f: "find_product (g_hash_table_get_values (device_ht db)) None = Some d"
    by (simp add: find_product_NULL_first)
  then show r: "libwacom_new_from_name (Some db) None error =
      (Some (d\<lparr>supported_styli := take (num_styli d) (supported_styli d)\<rparr>), error)"
    by (simp add: libwacom_new_from_name_def libwacom_copy_fields)
  assume "num_styli d = length (supported_styli d)"
  with f show "libwacom_new_from_name (Some db) None error = (Some d, error)"
    by (simp add: libwacom_new_from_name_def libwacom_copy_same)
next
  assume "list_all (\<lambda>x. product x \<noteq> None) (g_hash_table_get_values (device_ht db))"
  then have "find_product (g_hash_table_get_values (device_ht db)) None = None"
    by (rule find_product_NULL_none)
  then show "libwacom_new_from_name (Some db) None error =
      (None,
       case error of
         None \<Rightarrow> None
       | Some e \<Rightarrow> Some (e\<lparr>err_code := Some WERROR_UNKNOWN_MODEL, err_msg := None\<rparr>))"
    by (simp add: libwacom_new_from_name_def libwacom_error_set_def)
qed

theorem new_from_name_null_name_witness:
  "g_hash_table_get_values (device_ht db_unnamed) = [dev_named] @ dev_unnamed # []
   \<and> list_all (\<lambda>x. product x \<noteq> None) [dev_named] \<and> product dev_unnamed = None
   \<and> num_styli dev_unnamed = length (supported_styli dev_unnamed)
   \<and> libwacom_new_from_name (Some db_unnamed) None (Some \<lparr>err_code = None, err_msg = None\<rparr>) =
       (Some dev_unnamed, Some \<lparr>err_code = None, err_msg = None\<rparr>)
   \<and> dev_unnamed \<noteq> g_new0_WacomDevice
   \<and> list_all (\<lambda>x. product x \<noteq> None) (g_hash_table_get_values (device_ht db_named))
   \<and> libwacom_new_from_name (Some db_named) None (Some \<lparr>err_code = None, err_msg = None\<rparr>) =
       (None, Some \<lparr>err_code = Some WERROR_UNKNOWN_MODEL, err_msg = None\<rparr>)"
proof -
  have v: "g_hash_table_get_values (device_ht db_unnamed) = [dev_named] @ dev_unnamed # []"
    by (simp add: g_hash_table_get_values_def db_unnamed_def)
  have p: "list_all (\<lambda>x. product x \<noteq> None) [dev_named]" "product dev_unnamed = None"
    "num_styli dev_unnamed = length (supported_styli dev_unnamed)"
    by (simp_all add: dev_named_def dev_unnamed_def g_new0_WacomDevice_def)
  have z: "dev_unnamed \<noteq> g_new0_WacomDevice"
  proof
    assume "dev_unnamed = g_new0_WacomDevice"
    then have "match dev_unnamed = match g_new0_WacomDevice" by simp
    then show False by (simp add: dev_unnamed_def g_new0_WacomDevice_def)
  qed
  have n: "list_all (\<lambda>x. product x \<noteq> None) (g_hash_table_get_values (device_ht db_named))"
    by (simp add: g_hash_table_get_values_def db_named_def dev_named_def g_new0_WacomDevice_def)
  from new_from_name_null_name
    [of db_unnamed "[dev_named]" dev_unnamed "[]" "Some \<lparr>err_code = None, err_msg = None\<rparr>"] v p
  have a: "libwacom_new_from_name (Some db_unnamed) None (Some \<lparr>err_code = None, err_msg = None\<rparr>) =
       (Some dev_unnamed, Some \<lparr>err_code = None, err_msg = None\<rparr>)"
    by blast
  from new_from_name_null_name
    [of db_named _ _ _ "Some \<lparr>err_code = None, err_msg = None\<rparr>"] n
  have b: "libwacom_new_from_name (Some db_named) None (Some \<lparr>err_code = None, err_msg = None\<rparr>) =
       (None, Some \<lparr>err_code = Some WERROR_UNKNOWN_MODEL, err_msg = None\<rparr>)"
    by simp
  from v p z n a b show ?thesis by blast
qed

text \<open>
  C4. \<open>libwacom_new_from_usbid\<close> with a \<open>NULL\<close> database, for every pair of ids:
  \<open>libwacom_new\<close> reports \<open>WERROR_INVALID_DB\<close>, and the caller then reports
  \<open>WERROR_UNKNOWN_MODEL\<close> over it, so the code the caller of
  \<open>libwacom_new_from_usbid\<close> finds is \<open>WERROR_UNKNOWN_MODEL\<close>.
\<close>

theorem usbid_null_db_reports_unknown_model:
  "libwacom_new_from_usbid None vid pid (Some e) =
     Inr (None, Some (e\<lparr>err_code := Some WERROR_UNKNOWN_MODEL, err_msg := None\<rparr>))
   \<and> (libwacom_new_from_usbid None vid pid None = Inr (None, None))
   \<and> libwacom_new None vid pid WBUSTYPE_USB (Some e) =
     Inr (None, Some (e\<lparr>err_code := Some WERROR_INVALID_DB, err_msg := Some ''db is NULL''\<rparr>))"
  by (simp add: libwacom_new_from_usbid_def libwacom_new_def libwacom_error_set_def)

section \<open>The descriptor parser and the load\<close>

lemmas scan_defs = sscanf_match_def scan_busstr_def scan_lit_def scan_hex_def store_uint_def
  isspace_def isxdigit_def is_digit_of_def digit_val_def digits_value_def

lemma g_strcmp0_eq_0: "g_strcmp0 a b = 0 \<longleftrightarrow> a = b"
  by (cases a; cases b) (simp_all add: g_strcmp0_def)

lemma device_keyfile_string:
  "g_key_file_get_string (device_keyfile kvs) DEVICE_GROUP k = map_of kvs k"
  by (simp add: g_key_file_get_string_def device_keyfile_def DEVICE_GROUP_def)

lemma parse_features_frame:
  "match (parse_features keyfile d) = match d"
  "bus (parse_features keyfile d) = bus d"
  "vendor_id (parse_features keyfile d) = vendor_id d"
  "product_id (parse_features keyfile d) = product_id d"
  "product (parse_features keyfile d) = product d"
  by (simp_all add: parse_features_def parse_feature_def Let_def)

lemma parse_styli_frame:
  "match (parse_styli l d) = match d"
  "bus (parse_styli l d) = bus d"
  "vendor_id (parse_styli l d) = vendor_id d"
  "product_id (parse_styli l d) = product_id d"
  "product (parse_styli l d) = product d"
  by (simp_all add: parse_styli_def split: option.split)

lemma matchstr_foo:
  "libwacom_matchstr_to_ints (Some ''foo:1:2'') (0, 0, WBUSTYPE_UNKNOWN) =
     Inr (1, 1, 2, WBUSTYPE_UNKNOWN)"
  by (simp add: libwacom_matchstr_to_ints_def scan_defs bus_from_str_def)

lemma matchstr_bogus:
  "libwacom_matchstr_to_ints (Some ''bogus'') (0, 0, WBUSTYPE_UNKNOWN) =
     Inr (0, 0, 0, WBUSTYPE_UNKNOWN)"
  by (simp add: libwacom_matchstr_to_ints_def scan_defs bus_from_str_def)


lemma parse_unknown_bus:
  "libwacom_parse_tablet_keyfile (Some kf_unknown_bus) = Inl Assert_not_reached"
  by (simp add: libwacom_parse_tablet_keyfile_def parse_device_match_def g_strcmp0_eq_0
      GENERIC_DEVICE_MATCH_def kf_unknown_bus_def device_keyfile_string g_new0_WacomDevice_def
      matchstr_foo Let_def)

text \<open>
  C3. A descriptor whose \<open>DeviceMatch\<close> is \<open>foo:1:2\<close> scans (three conversions), its
  bus name maps to \<open>WBUSTYPE_UNKNOWN\<close>, and \<open>libwacom_parse_tablet_keyfile\<close> then calls
  \<open>bus_to_str\<close> on it: the parser reaches \<open>g_assert_not_reached ()\<close>.
\<close>

theorem unknown_bus_name_reaches_assertion:
  "g_key_file_get_string kf_unknown_bus DEVICE_GROUP ''DeviceMatch'' = Some ''foo:1:2''
   \<and> libwacom_matchstr_to_ints (Some ''foo:1:2'') (0, 0, WBUSTYPE_UNKNOWN) =
       Inr (1, 1, 2, WBUSTYPE_UNKNOWN)
   \<and> bus_to_str WBUSTYPE_UNKNOWN = Inl Assert_not_reached
   \<and> libwacom_parse_tablet_keyfile (Some kf_unknown_bus) = Inl Assert_not_reached"
proof -
  have "g_key_file_get_string kf_unknown_bus DEVICE_GROUP ''DeviceMatch'' = Some ''foo:1:2''"
    by (simp add: kf_unknown_bus_def device_keyfile_string)
  with matchstr_foo parse_unknown_bus show ?thesis by simp
qed

lemma parse_unparseable:
  "map_sum id (map_option match) (libwacom_parse_tablet_keyfile (Some kf_unparseable)) =
     Inr (Some None)"
  by (simp add: libwacom_parse_tablet_keyfile_def parse_device_match_def g_strcmp0_eq_0
      GENERIC_DEVICE_MATCH_def kf_unparseable_def device_keyfile_string g_new0_WacomDevice_def
      matchstr_bogus Let_def parse_features_frame parse_styli_frame)

lemma scandir_unparseable: "scandir dir_unparseable = Some [''bogus.tablet'']"
  by (simp add: scandir_def dir_unparseable_def scandir_filter_def SUFFIX_def)

text \<open>
  C2. A descriptor whose \<open>DeviceMatch\<close> does not scan parses to a device whose match
  key is \<open>NULL\<close>; \<open>libwacom_database_new\<close> does not skip it but inserts it under the
  \<open>NULL\<close> key, which \<open>g_str_hash\<close> reads: the load stops there.
\<close>

theorem null_match_key_is_inserted:
  "scandir dir_unparseable = Some [''bogus.tablet'']
   \<and> map_sum id (map_option match)
        (libwacom_parse_tablet_keyfile (dir_load dir_unparseable ''bogus.tablet'')) =
       Inr (Some None)
   \<and> libwacom_database_new dir_unparseable = Inl Null_dereference"
proof -
  have l: "dir_load dir_unparseable ''bogus.tablet'' = Some kf_unparseable"
    by (simp add: dir_unparseable_def)
  obtain d where d: "libwacom_parse_tablet_keyfile (Some kf_unparseable) = Inr (Some d)"
    and m: "match d = None"
    using parse_unparseable
    by (cases "libwacom_parse_tablet_keyfile (Some kf_unparseable)") (auto simp: map_option_case split: option.splits)
  have "load_tablets (dir_load dir_unparseable) [''bogus.tablet''] (Suc 0) [] = Inl Null_dereference"
    by (simp add: l d m g_hash_table_insert_str_def)
  then have "libwacom_database_new dir_unparseable = Inl Null_dereference"
    by (simp add: libwacom_database_new_def scandir_unparseable)
  with scandir_unparseable parse_unparseable l show ?thesis by simp
qed



lemma device_keyfile_others:
  "g_key_file_get_boolean (device_keyfile kvs) g k = False"
  "g_key_file_get_integer (device_keyfile kvs) g k = (0, True)"
  "g_key_file_get_string_list (device_keyfile kvs) g k = None"
  by (simp_all add: g_key_file_get_boolean_def g_key_file_get_integer_def
      g_key_file_get_string_list_def device_keyfile_def)



section \<open>Scanning a match key\<close>

lemma xdigit_not:
  "isxdigit c \<Longrightarrow> \<not> isspace c"
  "isxdigit c \<Longrightarrow> c \<noteq> CHR ''-''"
  "isxdigit c \<Longrightarrow> c \<noteq> CHR ''+''"
  "isxdigit c \<Longrightarrow> c \<noteq> CHR ''x''"
  "isxdigit c \<Longrightarrow> c \<noteq> CHR ''X''"
  "isxdigit c \<Longrightarrow> c \<noteq> CHR '':''"
  by (auto simp: isxdigit_def is_digit_of_def digit_val_def isspace_def)

lemma digits_value_zero: "digits_value b (CHR ''0'' # t) = digits_value b t"
  by (simp add: digits_value_def digit_val_def)

lemma takeWhile_xdigits:
  "list_all isxdigit t \<Longrightarrow> rest = [] \<or> (\<exists>r. rest = CHR '':'' # r) \<Longrightarrow>
   takeWhile isxdigit (t @ rest) = t"
  by (induction t) (auto simp: isxdigit_def is_digit_of_def digit_val_def)

lemma scan_hex_digits:
  assumes "ds \<noteq> []" and "list_all isxdigit ds" and "rest = [] \<or> (\<exists>r. rest = CHR '':'' # r)"
  shows "scan_hex (ds @ rest) = Some (store_uint False (digits_value 16 ds), rest)"
proof -
  from assms(1) obtain c t where ds: "ds = c # t" by (cases ds) auto
  with assms(2) have c: "isxdigit c" and t: "list_all isxdigit t" by simp_all
  have tw: "takeWhile isxdigit (t @ rest) = t"
    using t assms(3) by (rule takeWhile_xdigits)
  show ?thesis
  proof (cases "c = CHR ''0''")
    case False
    have "takeWhile isxdigit (c # t @ rest) = c # t"
      using c tw by simp
    with False c show ?thesis
      unfolding ds by (simp add: scan_hex_def xdigit_not)
  next
    case True
    have nx: "(case t @ rest of [] \<Rightarrow> [] | x # r' \<Rightarrow> if x = CHR ''x'' \<or> x = CHR ''X'' then r' else t @ rest)
       = t @ rest"
    proof (cases t)
      case Nil
      with assms(3) show ?thesis by auto
    next
      case (Cons x t')
      with t have "isxdigit x" by simp
      then have "x \<noteq> CHR ''x''" "x \<noteq> CHR ''X''" by (simp_all add: xdigit_not)
      with Cons show ?thesis by simp
    qed
    have sp: "\<not> isspace (CHR ''0'')" by (simp add: isspace_def)
    show ?thesis
      unfolding ds True by (simp add: scan_hex_def sp nx tw digits_value_zero)
  qed
qed

lemma scan_hex_prefixed:
  assumes "x = CHR ''x'' \<or> x = CHR ''X''" and "list_all isxdigit ds"
    and "rest = [] \<or> (\<exists>r. rest = CHR '':'' # r)"
  shows "scan_hex (CHR ''0'' # x # ds @ rest) = Some (store_uint False (digits_value 16 ds), rest)"
proof -
  have tw: "takeWhile isxdigit (ds @ rest) = ds"
    using assms(2,3) by (rule takeWhile_xdigits)
  have sp: "\<not> isspace (CHR ''0'')" by (simp add: isspace_def)
  from assms(1) show ?thesis
    by (auto simp: scan_hex_def sp tw)
qed

lemma scan_hex_field:
  assumes "hex_field v" and "rest = [] \<or> (\<exists>r. rest = CHR '':'' # r)"
  shows "scan_hex (v @ rest) = Some (hex_field_value v, rest)"
proof (cases "take 2 v = ''0x'' \<or> take 2 v = ''0X''")
  case True
  then obtain x ds where x: "x = CHR ''x'' \<or> x = CHR ''X''" and v: "v = CHR ''0'' # x # ds"
    by (cases v; cases "tl v") auto
  from x have d: "hex_field_digits v = ds"
    unfolding v by (auto simp: hex_field_digits_def)
  with assms(1) have "list_all isxdigit ds"
    by (simp add: hex_field_def)
  from scan_hex_prefixed [OF x this assms(2)] show ?thesis
    unfolding hex_field_value_def d unfolding v by simp
next
  case False
  with assms(1) have "v \<noteq> []" "list_all isxdigit v"
    by (simp_all add: hex_field_def hex_field_digits_def)
  from scan_hex_digits [OF this assms(2)] False show ?thesis
    by (simp add: hex_field_value_def hex_field_digits_def)
qed


lemma scan_busstr_field:
  assumes "b \<noteq> []" and "length b \<le> 63" and "CHR '':'' \<notin> set b"
  shows "scan_busstr (b @ CHR '':'' # r) = Some (b, CHR '':'' # r)"
proof -
  have "takeWhile (\<lambda>c. c \<noteq> CHR '':'') (take (63 - length b) (CHR '':'' # r)) = []"
    by (cases "63 - length b") simp_all
  moreover have "\<forall>x \<in> set b. x \<noteq> CHR '':''"
    using assms(3) by blast
  ultimately have "takeWhile (\<lambda>c. c \<noteq> CHR '':'') (take 63 (b @ CHR '':'' # r)) = b"
    using assms(2) by (simp add: takeWhile_append2)
  with assms(1) show ?thesis
    by (simp add: scan_busstr_def)
qed

lemma spec_match_key_fields_SomeD:
  assumes "spec_match_key_fields s = Some (b, v, p)"
  shows "s = b @ CHR '':'' # v @ CHR '':'' # p \<and> b \<noteq> [] \<and> length b \<le> 63
         \<and> CHR '':'' \<notin> set b \<and> hex_field v \<and> hex_field p"
proof -
  let ?P = "\<lambda>c. c \<noteq> CHR '':''"
  from assms obtain x r1 where r1: "dropWhile ?P s = x # r1"
    by (auto simp: spec_match_key_fields_def Let_def split: list.splits)
  with assms obtain y p' where p': "dropWhile ?P r1 = y # p'"
    by (auto simp: spec_match_key_fields_def Let_def split: list.splits)
  from assms r1 p' have e: "b = takeWhile ?P s" "v = takeWhile ?P r1" "p = p'"
    and c: "b \<noteq> []" "length b \<le> 63" "hex_field v" "hex_field p"
    by (auto simp: spec_match_key_fields_def Let_def split: if_splits)
  from r1 hd_dropWhile [of ?P s] have x: "x = CHR '':''" by auto
  from p' hd_dropWhile [of ?P r1] have y: "y = CHR '':''" by auto
  have "s = takeWhile ?P s @ dropWhile ?P s" by simp
  moreover have "r1 = takeWhile ?P r1 @ dropWhile ?P r1" by simp
  ultimately have "s = b @ CHR '':'' # v @ CHR '':'' # p"
    using r1 p' e x y by metis
  moreover have "CHR '':'' \<notin> set b"
    unfolding e using set_takeWhileD [of "CHR '':''" ?P s] by blast
  ultimately show ?thesis using c by blast
qed

lemma sscanf_match_fields:
  assumes "spec_match_key_fields s = Some (b, v, p)"
  shows "sscanf_match s = (3, Some b, Some (hex_field_value v), Some (hex_field_value p))"
proof -
  from spec_match_key_fields_SomeD [OF assms]
  have s: "s = b @ CHR '':'' # v @ CHR '':'' # p" and b: "b \<noteq> []" "length b \<le> 63"
    "CHR '':'' \<notin> set b" and v: "hex_field v" and p: "hex_field p"
    by blast+
  have 1: "scan_busstr s = Some (b, CHR '':'' # v @ CHR '':'' # p)"
    unfolding s using b by (rule scan_busstr_field)
  have 2: "scan_hex (v @ CHR '':'' # p) = Some (hex_field_value v, CHR '':'' # p)"
    using v by (rule scan_hex_field) simp
  have 3: "scan_hex p = Some (hex_field_value p, [])"
    using scan_hex_field [OF p, of "[]"] by simp
  from b(1) s have "s \<noteq> []" by simp
  then show ?thesis
    by (simp add: sscanf_match_def 1 2 3 scan_lit_def)
qed

lemma sscanf_match_3_prefix:
  assumes "fst (sscanf_match s) = 3"
  shows "takeWhile (\<lambda>c. c \<noteq> CHR '':'') s \<noteq> []
         \<and> length (takeWhile (\<lambda>c. c \<noteq> CHR '':'') s) \<le> 63
         \<and> dropWhile (\<lambda>c. c \<noteq> CHR '':'') s \<noteq> []"
proof -
  let ?P = "\<lambda>c. c \<noteq> CHR '':''"
  let ?b = "takeWhile ?P (take 63 s)"
  from assms obtain s1 where 1: "scan_busstr s = Some (?b, s1)"
    by (auto simp: sscanf_match_def scan_busstr_def Let_def split: if_splits option.splits)
  then have b: "?b \<noteq> []" and s1: "s1 = drop (length ?b) s"
    by (auto simp: scan_busstr_def Let_def split: if_splits)
  from assms 1 obtain s2 where "scan_lit (CHR '':'') s1 = Some s2"
    by (auto simp: sscanf_match_def split: if_splits option.splits)
  then have c: "s1 = CHR '':'' # s2"
    by (auto simp: scan_lit_def split: list.splits if_splits)
  have l: "length ?b \<le> 63"
    using length_takeWhile_le [of ?P "take 63 s"] by simp
  have "?b = take (length ?b) (take 63 s)"
    by (rule takeWhile_eq_take)
  with l have "?b = take (length ?b) s" by (simp add: min_def)
  then have "s = ?b @ s1" unfolding s1 by (metis append_take_drop_id)
  then have s: "s = ?b @ CHR '':'' # s2" using c by simp
  have "\<forall>x \<in> set ?b. ?P x" using set_takeWhileD [of _ ?P "take 63 s"] by blast
  then have "takeWhile ?P (?b @ CHR '':'' # s2) = ?b" "dropWhile ?P (?b @ CHR '':'' # s2) = CHR '':'' # s2"
    by (simp_all add: takeWhile_append2 dropWhile_append2)
  with s have "takeWhile ?P s = ?b" "dropWhile ?P s = CHR '':'' # s2" by metis+
  with b l show ?thesis by simp
qed


lemma isxdigit_chars:
  "isxdigit (CHR ''0'')" "\<not> isxdigit (CHR ''-'')" "\<not> isxdigit (CHR ''+'')"
  "\<not> isxdigit (CHR '':'')" "\<not> isspace (CHR '':'')"
  by (simp_all add: isxdigit_def is_digit_of_def digit_val_def isspace_def)

lemma scan_hex_explicit:
  "scan_hex t =
     (if scanned_hex_start t
      then Some (scanned_hex_value t,
                 dropWhile isxdigit (after_0x (strip_sign (dropWhile isspace t))))
      else None)"
proof -
  define t1 where "t1 = dropWhile isspace t"
  show ?thesis
    unfolding scan_hex_def scanned_hex_start_def scanned_hex_value_def t1_def [symmetric]
    by (cases t1)
      (auto simp: strip_sign_def after_0x_def Let_def isxdigit_chars
        dropWhile_eq_drop [symmetric] takeWhile_eq_Nil_iff split: list.splits)
qed


lemma dropWhile_isspace_colon:
  "dropWhile isspace (V @ CHR '':'' # P) = dropWhile isspace V @ CHR '':'' # P"
  by (induction V) (simp_all add: isxdigit_chars)

lemma strip_sign_colon: "strip_sign (w @ CHR '':'' # P) = strip_sign w @ CHR '':'' # P"
  by (cases w) (auto simp: strip_sign_def)

lemma after_0x_colon: "after_0x (u @ CHR '':'' # P) = after_0x u @ CHR '':'' # P"
  by (cases u; cases "tl u") (auto simp: after_0x_def)

lemma takeWhile_isxdigit_colon:
  "takeWhile isxdigit (a @ CHR '':'' # P) = takeWhile isxdigit a"
  by (induction a) (simp_all add: isxdigit_chars)

lemma dropWhile_isxdigit_colon:
  "dropWhile isxdigit (a @ CHR '':'' # P) =
     (if list_all isxdigit a then CHR '':'' # P else dropWhile isxdigit a @ CHR '':'' # P)"
  by (induction a) (simp_all add: isxdigit_chars)

lemma set_strip_sign: "set (strip_sign w) \<subseteq> set w"
  by (cases w) (auto simp: strip_sign_def)

lemma set_after_0x: "set (after_0x u) \<subseteq> set u"
  by (cases u; cases "tl u") (auto simp: after_0x_def)

lemma scanned_rest_subset:
  "set (dropWhile isxdigit (after_0x (strip_sign (dropWhile isspace V)))) \<subseteq> set V"
proof -
  have "set (dropWhile isxdigit (after_0x (strip_sign (dropWhile isspace V))))
          \<subseteq> set (after_0x (strip_sign (dropWhile isspace V)))"
    using set_dropWhileD by fastforce
  also have "\<dots> \<subseteq> set (strip_sign (dropWhile isspace V))" by (rule set_after_0x)
  also have "\<dots> \<subseteq> set (dropWhile isspace V)" by (rule set_strip_sign)
  also have "\<dots> \<subseteq> set V" using set_dropWhileD by fastforce
  finally show ?thesis .
qed

lemma scan_lit_no_colon: "CHR '':'' \<notin> set rest \<Longrightarrow> scan_lit (CHR '':'') rest = None"
  by (cases rest) (auto simp: scan_lit_def)

lemma scanned_hex_start_colon:
  "scanned_hex_start (V @ CHR '':'' # P) = scanned_hex_start V"
proof -
  have "(case u @ CHR '':'' # P of [] \<Rightarrow> False | c # _ \<Rightarrow> isxdigit c) =
        (case u of [] \<Rightarrow> False | c # _ \<Rightarrow> isxdigit c)" for u
    by (cases u) (simp_all add: isxdigit_chars)
  then show ?thesis
    by (simp add: scanned_hex_start_def dropWhile_isspace_colon strip_sign_colon)
qed

lemma scanned_hex_value_colon:
  "scanned_hex_value (V @ CHR '':'' # P) = scanned_hex_value V"
proof -
  have "(case w @ CHR '':'' # P of [] \<Rightarrow> False | c # _ \<Rightarrow> c = CHR ''-'') =
        (case w of [] \<Rightarrow> False | c # _ \<Rightarrow> c = CHR ''-'')" for w
    by (cases w) simp_all
  then show ?thesis
    by (simp add: scanned_hex_value_def dropWhile_isspace_colon strip_sign_colon after_0x_colon
        takeWhile_isxdigit_colon)
qed

lemma scan_hex_vendor_field:
  assumes "scanned_hex_field V"
  shows "scan_hex (V @ CHR '':'' # P) = Some (scanned_hex_value V, CHR '':'' # P)"
  using assms
  by (simp add: scan_hex_explicit scanned_hex_start_colon scanned_hex_value_colon
      scanned_hex_field_def dropWhile_isspace_colon strip_sign_colon after_0x_colon
      dropWhile_isxdigit_colon)

lemma scan_hex_vendor_bad:
  assumes "CHR '':'' \<notin> set V" and "\<not> scanned_hex_field V"
    and "scan_hex (V @ CHR '':'' # P) = Some (val, rest)"
  shows "scan_lit (CHR '':'') rest = None"
proof -
  let ?a = "after_0x (strip_sign (dropWhile isspace V))"
  from assms(3) have st: "scanned_hex_start V"
    and rest: "rest = dropWhile isxdigit (?a @ CHR '':'' # P)"
    by (auto simp: scan_hex_explicit scanned_hex_start_colon dropWhile_isspace_colon
        strip_sign_colon after_0x_colon split: if_splits)
  with assms(2) have n: "\<not> list_all isxdigit ?a"
    by (simp add: scanned_hex_field_def)
  then have d: "dropWhile isxdigit ?a \<noteq> []"
    by (simp add: list_all_iff)
  from n rest have r: "rest = dropWhile isxdigit ?a @ CHR '':'' # P"
    by (simp add: dropWhile_isxdigit_colon)
  from d have "hd (dropWhile isxdigit ?a) \<in> set (dropWhile isxdigit ?a)" by simp
  with scanned_rest_subset [of V] assms(1) have "hd (dropWhile isxdigit ?a) \<noteq> CHR '':''"
    by auto
  with d r show ?thesis
    by (cases "dropWhile isxdigit ?a") (auto simp: scan_lit_def)
qed

lemma scan_hex_no_colon:
  assumes "CHR '':'' \<notin> set V" and "scan_hex V = Some (val, rest)"
  shows "scan_lit (CHR '':'') rest = None"
proof -
  from assms(2) have "rest = dropWhile isxdigit (after_0x (strip_sign (dropWhile isspace V)))"
    by (auto simp: scan_hex_explicit split: if_splits)
  with scanned_rest_subset [of V] assms(1) have "CHR '':'' \<notin> set rest" by auto
  then show ?thesis by (rule scan_lit_no_colon)
qed


lemma match_key_scan_fields_SomeD:
  assumes "match_key_scan_fields s = Some (b, v, p)"
  shows "s = b @ CHR '':'' # v @ CHR '':'' # p \<and> b \<noteq> [] \<and> length b \<le> 63
         \<and> CHR '':'' \<notin> set b \<and> scanned_hex_field v \<and> scanned_hex_start p"
proof -
  let ?P = "\<lambda>c. c \<noteq> CHR '':''"
  from assms obtain x r1 where r1: "dropWhile ?P s = x # r1"
    by (auto simp: match_key_scan_fields_def Let_def split: list.splits)
  with assms obtain y p' where p': "dropWhile ?P r1 = y # p'"
    by (auto simp: match_key_scan_fields_def Let_def split: list.splits)
  from assms r1 p' have e: "b = takeWhile ?P s" "v = takeWhile ?P r1" "p = p'"
    and c: "b \<noteq> []" "length b \<le> 63" "scanned_hex_field v" "scanned_hex_start p"
    by (auto simp: match_key_scan_fields_def Let_def split: if_splits)
  from r1 hd_dropWhile [of ?P s] have x: "x = CHR '':''" by auto
  from p' hd_dropWhile [of ?P r1] have y: "y = CHR '':''" by auto
  have "s = takeWhile ?P s @ dropWhile ?P s" by simp
  moreover have "r1 = takeWhile ?P r1 @ dropWhile ?P r1" by simp
  ultimately have "s = b @ CHR '':'' # v @ CHR '':'' # p"
    using r1 p' e x y by metis
  moreover have "CHR '':'' \<notin> set b"
    unfolding e using set_takeWhileD [of "CHR '':''" ?P s] by blast
  ultimately show ?thesis using c by blast
qed

lemma sscanf_match_scan_fields:
  assumes "match_key_scan_fields s = Some (b, v, p)"
  shows "sscanf_match s = (3, Some b, Some (scanned_hex_value v), Some (scanned_hex_value p))"
proof -
  from match_key_scan_fields_SomeD [OF assms]
  have s: "s = b @ CHR '':'' # v @ CHR '':'' # p" and b: "b \<noteq> []" "length b \<le> 63"
    "CHR '':'' \<notin> set b" and v: "scanned_hex_field v" and p: "scanned_hex_start p"
    by blast+
  have 1: "scan_busstr s = Some (b, CHR '':'' # v @ CHR '':'' # p)"
    unfolding s using b by (rule scan_busstr_field)
  have 2: "scan_hex (v @ CHR '':'' # p) = Some (scanned_hex_value v, CHR '':'' # p)"
    using v by (rule scan_hex_vendor_field)
  from p obtain rest where 3: "scan_hex p = Some (scanned_hex_value p, rest)"
    by (simp add: scan_hex_explicit)
  from b(1) s have "s \<noteq> []" by simp
  then show ?thesis
    by (simp add: sscanf_match_def 1 2 3 scan_lit_def)
qed

lemma sscanf_match_no_scan_fields:
  assumes "match_key_scan_fields s = None"
  shows "fst (sscanf_match s) \<noteq> 3"
proof
  let ?P = "\<lambda>c. c \<noteq> CHR '':''"
  let ?b = "takeWhile ?P s"
  assume three: "fst (sscanf_match s) = 3"
  from sscanf_match_3_prefix [OF this]
  have b: "?b \<noteq> []" "length ?b \<le> 63" and d: "dropWhile ?P s \<noteq> []"
    by blast+
  from d obtain x r1 where r1: "dropWhile ?P s = x # r1" by (cases "dropWhile ?P s") auto
  with hd_dropWhile [of ?P s] have x: "x = CHR '':''" by auto
  have "s = ?b @ dropWhile ?P s" by simp
  with r1 x have s: "s = ?b @ CHR '':'' # r1" by metis
  have nb: "CHR '':'' \<notin> set ?b"
    using set_takeWhileD [of "CHR '':''" ?P s] by blast
  have 1: "scan_busstr s = Some (?b, CHR '':'' # r1)"
    using scan_busstr_field [OF b nb, of r1] s by metis
  from b(1) have ne: "s \<noteq> []" by auto
  from three obtain val s3 s4 where h: "scan_hex r1 = Some (val, s3)"
    and l: "scan_lit (CHR '':'') s3 = Some s4" and q: "scan_hex s4 \<noteq> None"
    by (auto simp: sscanf_match_def 1 ne scan_lit_def split: option.splits if_splits)
  let ?v = "takeWhile ?P r1"
  have nv: "CHR '':'' \<notin> set ?v"
    using set_takeWhileD [of "CHR '':''" ?P r1] by blast
  show False
  proof (cases "dropWhile ?P r1")
    case Nil
    then have "CHR '':'' \<notin> set r1" by (auto simp: dropWhile_eq_Nil_conv)
    from scan_hex_no_colon [OF this h] l show False by simp
  next
    case (Cons y p)
    with hd_dropWhile [of ?P r1] have y: "y = CHR '':''" by auto
    have "r1 = ?v @ dropWhile ?P r1" by simp
    with Cons y have r: "r1 = ?v @ CHR '':'' # p" by metis
    show False
    proof (cases "scanned_hex_field ?v")
      case False
      from h r have "scan_hex (?v @ CHR '':'' # p) = Some (val, s3)" by metis
      from scan_hex_vendor_bad [OF nv False this] l show False by simp
    next
      case True
      from scan_hex_vendor_field [OF True, of p] h r have "s3 = CHR '':'' # p" by (metis option.inject prod.inject)
      with l have "s4 = p" by (simp add: scan_lit_def)
      with q have "scanned_hex_start p" by (auto simp: scan_hex_explicit split: if_splits)
      with True b r1 Cons have "match_key_scan_fields s = Some (?b, ?v, p)"
        by (simp add: match_key_scan_fields_def)
      with assms show False by simp
    qed
  qed
qed

text \<open>
  C9, as amended. \<open>libwacom_matchstr_to_ints\<close> returns 1 exactly when the string begins
  with a match of the pattern: a bus name of 1 to 63 characters other than a colon, a
  colon, a hexadecimal vendor field up to the next colon, that colon, and the beginning
  of a hexadecimal product field. It then yields the vendor id and the product id the
  two fields denote and the bus of the bus name; what follows the digits of the product
  field is ignored. On every other string (a field missing, empty or not hexadecimal)
  it returns 0. In particular it returns 1, with the ids the fields denote, on every
  string that has the form \<open><bus-name>:<hex-vendor>:<hex-product>\<close> as a whole.
\<close>

theorem match_key_parse_full_match:
  "(spec_match_key_fields s = Some (b, v, p) \<longrightarrow>
      libwacom_matchstr_to_ints (Some s) outs =
        Inr (1, hex_field_value v, hex_field_value p, bus_from_str b))
   \<and> (match_key_scan_fields s = Some (b', v', p') \<longrightarrow>
      libwacom_matchstr_to_ints (Some s) outs =
        Inr (1, scanned_hex_value v', scanned_hex_value p', bus_from_str b'))
   \<and> (match_key_scan_fields s = None \<longrightarrow>
      map_sum id fst (libwacom_matchstr_to_ints (Some s) outs) = Inr 0)"
proof (intro conjI impI)
  assume "spec_match_key_fields s = Some (b, v, p)"
  from sscanf_match_fields [OF this] show
    "libwacom_matchstr_to_ints (Some s) outs =
        Inr (1, hex_field_value v, hex_field_value p, bus_from_str b)"
    by (simp add: libwacom_matchstr_to_ints_def split: prod.split)
next
  assume "match_key_scan_fields s = Some (b', v', p')"
  from sscanf_match_scan_fields [OF this] show
    "libwacom_matchstr_to_ints (Some s) outs =
        Inr (1, scanned_hex_value v', scanned_hex_value p', bus_from_str b')"
    by (simp add: libwacom_matchstr_to_ints_def split: prod.split)
next
  assume "match_key_scan_fields s = None"
  then have "fst (sscanf_match s) \<noteq> 3"
    by (rule sscanf_match_no_scan_fields)
  then show "map_sum id fst (libwacom_matchstr_to_ints (Some s) outs) = Inr 0"
    by (cases outs; cases "sscanf_match s") (auto simp: libwacom_matchstr_to_ints_def Let_def)
qed

lemmas scan_form_defs = match_key_scan_fields_def scanned_hex_field_def scanned_hex_start_def
  scanned_hex_value_def strip_sign_def after_0x_def store_uint_def isspace_def isxdigit_def
  is_digit_of_def digit_val_def digits_value_def

text \<open>
  C9 as stated fails: \<open>usb:56a:81zz\<close> and \<open>usb: 56a:-1\<close> do not have the form as a
  whole, and \<open>libwacom_matchstr_to_ints\<close> returns 1 on both: \<open>sscanf\<close> stops after
  the third conversion and never looks at the rest of the string, and \<open>%x\<close> skips
  white space and takes a sign.
\<close>

theorem match_key_parse_trailing_counterexample:
  "spec_match_key_fields ''usb:56a:81zz'' = None
   \<and> libwacom_matchstr_to_ints (Some ''usb:56a:81zz'') (0, 0, WBUSTYPE_UNKNOWN) =
       Inr (1, 0x56a, 0x81, WBUSTYPE_USB)
   \<and> spec_match_key_fields ''usb: 56a:-1'' = None
   \<and> libwacom_matchstr_to_ints (Some ''usb: 56a:-1'') (0, 0, WBUSTYPE_UNKNOWN) =
       Inr (1, 0x56a, - 1, WBUSTYPE_USB)"
proof -
  have "\<not> hex_field ''81zz''" "\<not> hex_field '' 56a''"
    by (simp_all add: hex_field_def hex_field_digits_def isxdigit_def is_digit_of_def
        digit_val_def)
  then have "spec_match_key_fields ''usb:56a:81zz'' = None"
    "spec_match_key_fields ''usb: 56a:-1'' = None"
    by (simp_all add: spec_match_key_fields_def)
  moreover have "libwacom_matchstr_to_ints (Some ''usb:56a:81zz'') (0, 0, WBUSTYPE_UNKNOWN) =
       Inr (1, 0x56a, 0x81, WBUSTYPE_USB)"
    by (simp add: libwacom_matchstr_to_ints_def scan_defs bus_from_str_def)
  moreover have "libwacom_matchstr_to_ints (Some ''usb: 56a:-1'') (0, 0, WBUSTYPE_UNKNOWN) =
       Inr (1, 0x56a, - 1, WBUSTYPE_USB)"
    by (simp add: libwacom_matchstr_to_ints_def scan_defs bus_from_str_def)
  ultimately show ?thesis by simp
qed

theorem match_key_parse_full_match_witness:
  "spec_match_key_fields ''usb:0x56a:0x81'' = Some (''usb'', ''0x56a'', ''0x81'')
   \<and> libwacom_matchstr_to_ints (Some ''usb:0x56a:0x81'') (0, 0, WBUSTYPE_UNKNOWN) =
       Inr (1, 0x56a, 0x81, WBUSTYPE_USB)
   \<and> match_key_scan_fields ''usb:56a:81zz'' = Some (''usb'', ''56a'', ''81zz'')
   \<and> libwacom_matchstr_to_ints (Some ''usb:56a:81zz'') (7, 8, WBUSTYPE_SERIAL) =
       Inr (1, 0x56a, 0x81, WBUSTYPE_USB)
   \<and> match_key_scan_fields ''usb::'' = None
   \<and> map_sum id fst (libwacom_matchstr_to_ints (Some ''usb::'') (0, 0, WBUSTYPE_UNKNOWN)) = Inr 0
   \<and> match_key_scan_fields ''usb:1'' = None
   \<and> map_sum id fst (libwacom_matchstr_to_ints (Some ''usb:1'') (0, 0, WBUSTYPE_UNKNOWN)) = Inr 0
   \<and> match_key_scan_fields ''usb:zz:1'' = None
   \<and> map_sum id fst (libwacom_matchstr_to_ints (Some ''usb:zz:1'') (0, 0, WBUSTYPE_UNKNOWN)) = Inr 0
   \<and> match_key_scan_fields ''generic'' = None
   \<and> map_sum id fst (libwacom_matchstr_to_ints (Some ''generic'') (0, 0, WBUSTYPE_UNKNOWN)) = Inr 0"
proof -
  have h: "hex_field ''0x56a''" "hex_field ''0x81''"
    by (simp_all add: hex_field_def hex_field_digits_def isxdigit_def is_digit_of_def digit_val_def)
  then have f: "spec_match_key_fields ''usb:0x56a:0x81'' = Some (''usb'', ''0x56a'', ''0x81'')"
    by (simp add: spec_match_key_fields_def)
  have v: "hex_field_value ''0x56a'' = 0x56a" "hex_field_value ''0x81'' = 0x81"
    by (simp_all add: hex_field_value_def hex_field_digits_def store_uint_def digits_value_def
        digit_val_def)
  have g: "match_key_scan_fields ''usb:56a:81zz'' = Some (''usb'', ''56a'', ''81zz'')"
    by (simp add: scan_form_defs)
  have w: "scanned_hex_value ''56a'' = 0x56a" "scanned_hex_value ''81zz'' = 0x81"
    by (simp_all add: scan_form_defs)
  have n: "match_key_scan_fields ''usb::'' = None" "match_key_scan_fields ''usb:1'' = None"
    "match_key_scan_fields ''usb:zz:1'' = None" "match_key_scan_fields ''generic'' = None"
    by (simp_all add: scan_form_defs)
  note full = match_key_parse_full_match [THEN conjunct1, rule_format]
  note scan = match_key_parse_full_match [THEN conjunct2, THEN conjunct1, rule_format]
  note fail = match_key_parse_full_match [THEN conjunct2, THEN conjunct2, rule_format]
  from full [OF f, of "(0, 0, WBUSTYPE_UNKNOWN)"] v
  have a: "libwacom_matchstr_to_ints (Some ''usb:0x56a:0x81'') (0, 0, WBUSTYPE_UNKNOWN) =
       Inr (1, 0x56a, 0x81, WBUSTYPE_USB)"
    by (simp add: bus_from_str_def)
  from scan [OF g, of "(7, 8, WBUSTYPE_SERIAL)"] w
  have b: "libwacom_matchstr_to_ints (Some ''usb:56a:81zz'') (7, 8, WBUSTYPE_SERIAL) =
       Inr (1, 0x56a, 0x81, WBUSTYPE_USB)"
    by (simp add: bus_from_str_def)
  have c: "map_sum id fst (libwacom_matchstr_to_ints (Some ''usb::'') (0, 0, WBUSTYPE_UNKNOWN)) = Inr 0"
    "map_sum id fst (libwacom_matchstr_to_ints (Some ''usb:1'') (0, 0, WBUSTYPE_UNKNOWN)) = Inr 0"
    "map_sum id fst (libwacom_matchstr_to_ints (Some ''usb:zz:1'') (0, 0, WBUSTYPE_UNKNOWN)) = Inr 0"
    "map_sum id fst (libwacom_matchstr_to_ints (Some ''generic'') (0, 0, WBUSTYPE_UNKNOWN)) = Inr 0"
    by (rule fail [OF n(1)], rule fail [OF n(2)], rule fail [OF n(3)], rule fail [OF n(4)])
  from f a g b n c show ?thesis by (intro conjI)
qed

section \<open>Duplicate match keys in the load\<close>

lemma map_of_g_hash_table_insert:
  "map_of (g_hash_table_insert ht k v) = (map_of ht)(k \<mapsto> v)"
  by (induction ht k v rule: g_hash_table_insert.induct) auto

lemma load_tablets_Suc:
  assumes "load_tablets ld files (Suc n) ht = Inr ht'"
  shows "(libwacom_parse_tablet_keyfile (ld (files ! n)) = Inr None \<and>
            load_tablets ld files n ht = Inr ht')
         \<or> (\<exists>d k. libwacom_parse_tablet_keyfile (ld (files ! n)) = Inr (Some d) \<and>
               match d = Some k \<and>
               load_tablets ld files n (g_hash_table_insert ht k d) = Inr ht')"
  using assms
  by (auto simp: g_hash_table_insert_str_def split: sum.splits option.splits)

lemma load_tablets_other_keys:
  assumes "load_tablets ld files n ht = Inr ht'"
    and "\<forall>j<n. \<forall>d'. libwacom_parse_tablet_keyfile (ld (files ! j)) = Inr (Some d') \<longrightarrow>
           match d' \<noteq> Some k"
  shows "map_of ht' k = map_of ht k"
  using assms
proof (induction n arbitrary: ht)
  case 0
  then show ?case by simp
next
  case (Suc n)
  from Suc.prems(2) have rest:
    "\<forall>j<n. \<forall>d'. libwacom_parse_tablet_keyfile (ld (files ! j)) = Inr (Some d') \<longrightarrow>
       match d' \<noteq> Some k"
    using less_SucI by blast
  from Suc.prems(2) have cur:
    "\<forall>d'. libwacom_parse_tablet_keyfile (ld (files ! n)) = Inr (Some d') \<longrightarrow> match d' \<noteq> Some k"
    using lessI by blast
  from load_tablets_Suc [OF Suc.prems(1)] show ?case
  proof (elim disjE conjE exE)
    assume "load_tablets ld files n ht = Inr ht'"
    then show ?thesis using rest by (rule Suc.IH)
  next
    fix d k'
    assume p: "libwacom_parse_tablet_keyfile (ld (files ! n)) = Inr (Some d)"
      and m: "match d = Some k'"
      and l: "load_tablets ld files n (g_hash_table_insert ht k' d) = Inr ht'"
    from p m cur have "k' \<noteq> k" by auto
    moreover from l rest
    have "map_of ht' k = map_of (g_hash_table_insert ht k' d) k" by (rule Suc.IH)
    ultimately show ?thesis by (simp add: map_of_g_hash_table_insert)
  qed
qed

lemma load_tablets_first_wins:
  assumes "load_tablets ld files n ht = Inr ht'" and "i < n"
    and "libwacom_parse_tablet_keyfile (ld (files ! i)) = Inr (Some d)" and "match d = Some k"
    and "\<forall>j<i. \<forall>d'. libwacom_parse_tablet_keyfile (ld (files ! j)) = Inr (Some d') \<longrightarrow>
           match d' \<noteq> Some k"
  shows "map_of ht' k = Some d"
  using assms(1,2)
proof (induction n arbitrary: ht)
  case 0
  then show ?case by simp
next
  case (Suc n)
  show ?case
  proof (cases "i = n")
    case True
    from load_tablets_Suc [OF Suc.prems(1)] assms(3,4) True
    have l: "load_tablets ld files n (g_hash_table_insert ht k d) = Inr ht'" by auto
    from assms(5) True have
      "\<forall>j<n. \<forall>d'. libwacom_parse_tablet_keyfile (ld (files ! j)) = Inr (Some d') \<longrightarrow>
         match d' \<noteq> Some k"
      by blast
    with l have "map_of ht' k = map_of (g_hash_table_insert ht k d) k"
      by (rule load_tablets_other_keys)
    then show ?thesis by (simp add: map_of_g_hash_table_insert)
  next
    case False
    with Suc.prems(2) have "i < n" by simp
    with load_tablets_Suc [OF Suc.prems(1)] Suc.IH show ?thesis by blast
  qed
qed


text \<open>
  C1, as amended. The load runs over the sorted file names from the last to the first,
  so of the descriptors with one match key the alphabetically earliest is inserted
  last and stays: when the load returns a database, and \<open>f\<close> is a descriptor file of
  the directory that parses to the device \<open>d\<close> with match key \<open>k\<close>, and no
  alphabetically earlier descriptor file parses to a device with that key, the device
  table maps \<open>k\<close> to \<open>d\<close>. The warnings of the load are those of the stylus catalog:
  the device table gives none.
\<close>

theorem earliest_file_wins:
  assumes new: "libwacom_database_new dir = Inr (db, warnings)"
    and names: "dir_names dir = Some names"
    and f: "f \<in> set names" "scandir_filter f"
    and p: "libwacom_parse_tablet_keyfile (dir_load dir f) = Inr (Some d)"
    and m: "match d = Some k"
    and least: "\<forall>g \<in> set names. scandir_filter g \<and> g < f \<longrightarrow>
       (\<forall>d'. libwacom_parse_tablet_keyfile (dir_load dir g) = Inr (Some d') \<longrightarrow>
          match d' \<noteq> Some k)"
  shows "libwacom_get_device db k = Some d
         \<and> (\<exists>sht. stylus_ht db = Some sht
                \<and> libwacom_parse_stylus_keyfile [] (dir_stylus dir) = Inr (sht, warnings))"
proof -
  define files where "files = sort (filter scandir_filter names)"
  have sc: "scandir dir = Some files"
    by (simp add: scandir_def names files_def)
  have mem: "set files = {g \<in> set names. scandir_filter g}"
    by (auto simp: files_def)
  have srt: "sorted files"
    by (simp add: files_def)
  from f mem have "f \<in> set files" by simp
  then have ne: "length files \<noteq> 0" by auto
  from new sc ne obtain ht sht where
    l: "load_tablets (dir_load dir) files (length files) [] = Inr ht"
    and st: "libwacom_parse_stylus_keyfile [] (dir_stylus dir) = Inr (sht, warnings)"
    and db: "db = \<lparr>device_ht = ht, stylus_ht = Some sht\<rparr>"
    by (auto simp: libwacom_database_new_def split: sum.splits)
  from \<open>f \<in> set files\<close> have "\<exists>i. i < length files \<and> files ! i = f"
    by (simp add: in_set_conv_nth)
  then obtain i where i: "i < length files" "files ! i = f"
    and mn: "\<forall>j<i. \<not> (j < length files \<and> files ! j = f)"
    using exists_least_iff [of "\<lambda>i. i < length files \<and> files ! i = f"] by blast
  have "\<forall>j<i. \<forall>d'. libwacom_parse_tablet_keyfile (dir_load dir (files ! j)) = Inr (Some d') \<longrightarrow>
           match d' \<noteq> Some k"
  proof (intro allI impI)
    fix j d'
    assume j: "j < i"
      and pj: "libwacom_parse_tablet_keyfile (dir_load dir (files ! j)) = Inr (Some d')"
    from j i(1) have jl: "j < length files" by simp
    with mn j have "files ! j \<noteq> f" by blast
    moreover from srt j i have "files ! j \<le> f"
      using sorted_nth_mono [of files j i] by simp
    ultimately have "files ! j < f" by simp
    moreover from jl mem have "files ! j \<in> set names" "scandir_filter (files ! j)"
      using nth_mem [of j files] by auto
    ultimately show "match d' \<noteq> Some k" using least pj by blast
  qed
  with l i p m have "map_of ht k = Some d"
    using load_tablets_first_wins [of "dir_load dir" files "length files" "[]" ht i d k] by simp
  with db st show ?thesis
    by (simp add: libwacom_get_device_def g_hash_table_lookup_def)
qed

lemma matchstr_usb_1_2:
  "libwacom_matchstr_to_ints (Some ''usb:1:2'') (0, 0, WBUSTYPE_UNKNOWN) = Inr (1, 1, 2, WBUSTYPE_USB)"
  by (simp add: libwacom_matchstr_to_ints_def scan_defs bus_from_str_def)

lemma parse_dup_a: "libwacom_parse_tablet_keyfile (Some kf_dup_a) = Inr (Some dev_dup_a)"
  by (simp add: libwacom_parse_tablet_keyfile_def parse_device_match_def g_strcmp0_eq_0
      GENERIC_DEVICE_MATCH_def kf_dup_a_def device_keyfile_string device_keyfile_others
      g_new0_WacomDevice_def matchstr_usb_1_2 Let_def parse_features_def parse_feature_def
      parse_styli_def printf_match_def hex_digits.simps hex_char_def dev_dup_a_def
      libwacom_model_string_to_enum_def)

lemma parse_dup_b: "libwacom_parse_tablet_keyfile (Some kf_dup_b) = Inr (Some dev_dup_b)"
  by (simp add: libwacom_parse_tablet_keyfile_def parse_device_match_def g_strcmp0_eq_0
      GENERIC_DEVICE_MATCH_def kf_dup_b_def device_keyfile_string device_keyfile_others
      g_new0_WacomDevice_def matchstr_usb_1_2 Let_def parse_features_def parse_feature_def
      parse_styli_def printf_match_def hex_digits.simps hex_char_def dev_dup_b_def
      libwacom_model_string_to_enum_def)

lemma dir_duplicate_load:
  "dir_load dir_duplicate ''a.tablet'' = Some kf_dup_a"
  "dir_load dir_duplicate ''b.tablet'' = Some kf_dup_b"
  by (simp_all add: dir_duplicate_def)

lemma scandir_duplicate: "scandir dir_duplicate = Some [''a.tablet'', ''b.tablet'']"
  by (simp add: scandir_def dir_duplicate_def scandir_filter_def SUFFIX_def)

lemma dup_match: "match dev_dup_a = Some ''usb:0x1:0x2''" "match dev_dup_b = Some ''usb:0x1:0x2''"
  by (simp_all add: dev_dup_a_def dev_dup_b_def)

lemma dup_differ: "dev_dup_a \<noteq> dev_dup_b"
proof
  assume "dev_dup_a = dev_dup_b"
  then have "product dev_dup_a = product dev_dup_b" by simp
  then show False by (simp add: dev_dup_a_def dev_dup_b_def)
qed

lemma load_tablets_duplicate:
  "load_tablets (dir_load dir_duplicate) [''a.tablet'', ''b.tablet''] (Suc (Suc 0)) [] =
     Inr [(''usb:0x1:0x2'', dev_dup_a)]"
  by (simp add: dir_duplicate_load parse_dup_a parse_dup_b dup_match g_hash_table_insert_str_def)

lemma database_new_duplicate: "libwacom_database_new dir_duplicate = Inr (db_duplicate, [])"
proof -
  have "libwacom_parse_stylus_keyfile [] (dir_stylus dir_duplicate) = Inr ([], [])"
    by (simp add: libwacom_parse_stylus_keyfile_def dir_duplicate_def g_key_file_get_groups_def)
  then show ?thesis
    by (simp add: libwacom_database_new_def scandir_duplicate load_tablets_duplicate
        db_duplicate_def del: load_tablets.simps)
qed

text \<open>
  C1 as stated fails: \<open>a.tablet\<close> and \<open>b.tablet\<close> parse to devices with the same match
  key, and after the load the table holds the device of \<open>a.tablet\<close>, the alphabetically
  earlier file, not the device of \<open>b.tablet\<close>.
\<close>

theorem later_file_replaces_counterexample:
  "scandir dir_duplicate = Some [''a.tablet'', ''b.tablet'']
   \<and> libwacom_parse_tablet_keyfile (dir_load dir_duplicate ''a.tablet'') = Inr (Some dev_dup_a)
   \<and> libwacom_parse_tablet_keyfile (dir_load dir_duplicate ''b.tablet'') = Inr (Some dev_dup_b)
   \<and> match dev_dup_a = Some ''usb:0x1:0x2'' \<and> match dev_dup_b = Some ''usb:0x1:0x2''
   \<and> libwacom_database_new dir_duplicate = Inr (db_duplicate, [])
   \<and> libwacom_get_device db_duplicate ''usb:0x1:0x2'' = Some dev_dup_a
   \<and> libwacom_get_device db_duplicate ''usb:0x1:0x2'' \<noteq> Some dev_dup_b"
proof -
  have g: "libwacom_get_device db_duplicate ''usb:0x1:0x2'' = Some dev_dup_a"
    by (simp add: libwacom_get_device_def g_hash_table_lookup_def db_duplicate_def)
  with dup_differ have "libwacom_get_device db_duplicate ''usb:0x1:0x2'' \<noteq> Some dev_dup_b"
    by simp
  with g scandir_duplicate parse_dup_a parse_dup_b dup_match database_new_duplicate
  show ?thesis by (simp add: dir_duplicate_load)
qed

theorem earliest_file_wins_witness:
  "libwacom_database_new dir_duplicate = Inr (db_duplicate, [])
   \<and> dir_names dir_duplicate = Some [''.'', ''..'', ''b.tablet'', ''a.tablet'']
   \<and> scandir_filter ''a.tablet''
   \<and> libwacom_parse_tablet_keyfile (dir_load dir_duplicate ''a.tablet'') = Inr (Some dev_dup_a)
   \<and> match dev_dup_a = Some ''usb:0x1:0x2''
   \<and> libwacom_get_device db_duplicate ''usb:0x1:0x2'' = Some dev_dup_a
   \<and> stylus_ht db_duplicate = Some []
   \<and> libwacom_parse_stylus_keyfile [] (dir_stylus dir_duplicate) = Inr ([], [])"
proof -
  have n: "dir_names dir_duplicate = Some [''.'', ''..'', ''b.tablet'', ''a.tablet'']"
    by (simp add: dir_duplicate_def)
  have f: "''a.tablet'' \<in> set [''.'', ''..'', ''b.tablet'', ''a.tablet'']" "scandir_filter ''a.tablet''"
    by (simp_all add: scandir_filter_def SUFFIX_def)
  have p: "libwacom_parse_tablet_keyfile (dir_load dir_duplicate ''a.tablet'') = Inr (Some dev_dup_a)"
    by (simp add: dir_duplicate_load parse_dup_a)
  have l: "\<forall>g \<in> set [''.'', ''..'', ''b.tablet'', ''a.tablet'']. scandir_filter g \<and> g < ''a.tablet'' \<longrightarrow>
       (\<forall>d'. libwacom_parse_tablet_keyfile (dir_load dir_duplicate g) = Inr (Some d') \<longrightarrow>
          match d' \<noteq> Some ''usb:0x1:0x2'')"
    by (simp add: scandir_filter_def SUFFIX_def)
  have s: "stylus_ht db_duplicate = Some []"
    by (simp add: db_duplicate_def)
  from earliest_file_wins [OF database_new_duplicate n f p dup_match(1) l] s
  have "libwacom_get_device db_duplicate ''usb:0x1:0x2'' = Some dev_dup_a"
    and "libwacom_parse_stylus_keyfile [] (dir_stylus dir_duplicate) = Inr ([], [])"
    by auto
  with database_new_duplicate n f(2) p dup_match(1) s show ?thesis by blast
qed

end
